theory Spec2Isabelle
  imports Complex_Main
begin

section \<open>Arrays and the numpy operations the filters use\<close>

text \<open>
  The source (\<^verbatim>\<open>src/SensorFusion.py\<close>) works on two-dimensional numpy arrays of floats.
  An array is modelled as the list of its rows, and a float as a real number: rounding,
  infinities and NaN are outside the model (the one place where the source produces a NaN
  without raising, the mean of an empty slice in \<^verbatim>\<open>zero\<close>, is a value of its own below).
  numpy arrays are rectangular; \<open>is_mat r c M\<close> says that \<open>M\<close> is an array of shape \<open>(r, c)\<close>.
  The operations are the mathematical ones; on operands whose shapes do not fit numpy raises
  a ValueError, which the model does not follow: statements that depend on the values carry
  the shapes of the filter's arrays as a hypothesis (\<open>wf_v\<close>, \<open>wf_6dof\<close> below).
  The elementary functions are those of the reals; at an odd multiple of \<open>pi / 2\<close>, which no
  float is, HOL's \<open>tan\<close> is 0.
\<close>

type_synonym mat = "real list list"

definition is_mat :: "nat \<Rightarrow> nat \<Rightarrow> mat \<Rightarrow> bool" where
  "is_mat r c M \<longleftrightarrow> length M = r \<and> (\<forall>row \<in> set M. length row = c)"

text \<open>\<^verbatim>\<open>np.transpose\<close> of a two-dimensional array.\<close>

definition transpose_m :: "mat \<Rightarrow> mat" where
  "transpose_m M =
     (case M of [] \<Rightarrow> [] | r # _ \<Rightarrow> map (\<lambda>j. map (\<lambda>row. row ! j) M) [0..<length r])"

text \<open>\<^verbatim>\<open>a.dot(b)\<close> of two-dimensional arrays: the matrix product.\<close>

definition dot :: "mat \<Rightarrow> mat \<Rightarrow> mat" where
  "dot A B = map (\<lambda>r. map (\<lambda>c. sum_list (map2 (*) r c)) (transpose_m B)) A"

text \<open>
  \<^verbatim>\<open>a + b\<close> and \<^verbatim>\<open>a - b\<close> on two-dimensional arrays broadcast: an axis of length 1 is
  stretched to the length of the other operand's axis. The velocity filter relies on it
  (a \<open>(1, 1)\<close> measurement minus a \<open>(2, 1)\<close> array).
\<close>

definition bcast :: "nat \<Rightarrow> 'a list \<Rightarrow> 'a list" where
  "bcast n xs = (if length xs = 1 then replicate n (hd xs) else xs)"

definition np_zip :: "(real \<Rightarrow> real \<Rightarrow> real) \<Rightarrow> mat \<Rightarrow> mat \<Rightarrow> mat" where
  "np_zip f A B =
     (let r = max (length A) (length B)
      in map2 (\<lambda>ra rb. let c = max (length ra) (length rb)
                        in map2 f (bcast c ra) (bcast c rb))
           (bcast r A) (bcast r B))"

definition np_add :: "mat \<Rightarrow> mat \<Rightarrow> mat" where
  "np_add A B = np_zip (+) A B"

definition np_sub :: "mat \<Rightarrow> mat \<Rightarrow> mat" where
  "np_sub A B = np_zip (-) A B"

text \<open>\<^verbatim>\<open>a * c\<close> for an array and a number.\<close>

definition np_scale :: "mat \<Rightarrow> real \<Rightarrow> mat" where
  "np_scale A c = map (map (\<lambda>a. a * c)) A"

text \<open>\<^verbatim>\<open>np.eye(n)\<close>.\<close>

definition eye :: "nat \<Rightarrow> mat" where
  "eye n = map (\<lambda>i. map (\<lambda>j. if i = j then 1 else 0) [0..<n]) [0..<n]"

text \<open>\<^verbatim>\<open>np.mean\<close> of a non-empty list, \<^verbatim>\<open>np.radians\<close>, \<^verbatim>\<open>np.degrees\<close>.\<close>

definition np_mean :: "real list \<Rightarrow> real" where
  "np_mean xs = sum_list xs / real (length xs)"

definition radians :: "real \<Rightarrow> real" where
  "radians d = d * pi / 180"

definition degrees :: "real \<Rightarrow> real" where
  "degrees r = r * 180 / pi"

text \<open>\<^verbatim>\<open>np.arctan2(y, x)\<close>: the angle of the point \<open>(x, y)\<close>, in \<open>(-pi, pi]\<close>.\<close>

definition arctan2 :: "real \<Rightarrow> real \<Rightarrow> real" where
  "arctan2 y x =
     (if 0 < x then arctan (y / x)
      else if x < 0 then (if 0 \<le> y then arctan (y / x) + pi else arctan (y / x) - pi)
      else if 0 < y then pi / 2
      else if y < 0 then - (pi / 2)
      else 0)"

text \<open>
  The exceptions the modelled code can raise: Python's ZeroDivisionError (a division of
  plain Python numbers by zero) and IndexError (an index beyond a sequence),
  \<^verbatim>\<open>numpy.linalg.LinAlgError\<close> (raised by \<^verbatim>\<open>np.linalg.inv\<close>), and the error with which
  FITPACK refuses to fit a spline.
\<close>

datatype error = ZeroDivisionError | LinAlgError | IndexError | FitpackError

text \<open>
  \<^verbatim>\<open>np.linalg.inv\<close>, in exact arithmetic: the inverse of an invertible matrix and
  LinAlgError for a singular one. This idealises the library routine, which factorises the
  array of floats and raises only when a pivot of the factorisation is exactly zero: on
  floats it can raise for a matrix whose exact inverse exists, and it can return an array
  for a matrix that has none. A statement of this theory about a step that returns is
  therefore about the exact values of the step's formulas; the runs that are evaluated
  below have innovation covariances far from singular, and no claim below is about which
  matrices make the routine raise. In both filters the argument has as many rows and
  columns as the measurement map \<open>C\<close> has rows, which is two, so the inverse is written out
  for shape \<open>(2, 2)\<close>; the last case is not reached from a filter whose arrays have their
  shapes.
\<close>

definition inv :: "mat \<Rightarrow> error + mat" where
  "inv M =
     (case M of
        [[a, b], [c, d]] \<Rightarrow>
          if a * d - b * c = 0 then Inl LinAlgError
          else Inr [[d / (a * d - b * c), - b / (a * d - b * c)],
                    [- c / (a * d - b * c), a / (a * d - b * c)]]
      | _ \<Rightarrow> Inl LinAlgError)"

text \<open>\<^verbatim>\<open>a[i][j]\<close> on an array, for indices that are not negative.\<close>

definition item :: "mat \<Rightarrow> nat \<Rightarrow> nat \<Rightarrow> error + real" where
  "item M i j =
     (if i < length M \<and> j < length (M ! i) then Inr (M ! i ! j) else Inl IndexError)"

section \<open>The attributes of the two filter classes\<close>

text \<open>
  Both classes keep a state vector \<open>x\<close>, a covariance \<open>P\<close>, the noise matrices \<open>Q\<close> and \<open>R\<close>
  and the measurement map \<open>C\<close>; the record \<open>kalman_attrs\<close> holds these five, and each
  class adds its own attributes.
\<close>

record kalman_attrs =
  x :: mat
  P :: mat
  Q :: mat
  R :: mat
  C :: mat

record kalman_filter_velocity = kalman_attrs +
  ac_x :: "real list"
  ac_y :: "real list"
  ac_z :: "real list"
  current_position :: real
  Q_coeff :: real
  R_coeff :: real

record kalman_filter_6dof = kalman_attrs +
  acc_x :: "real list"
  acc_y :: "real list"
  acc_z :: "real list"


definition wf_6dof :: "kalman_filter_6dof \<Rightarrow> bool" where
  "wf_6dof self \<longleftrightarrow>
     is_mat 4 1 (x self) \<and> is_mat 4 4 (P self) \<and> is_mat 4 4 (Q self) \<and>
     is_mat 2 2 (R self) \<and> is_mat 2 4 (C self) \<and>
     length (acc_x self) = 2 \<and> length (acc_y self) = 2 \<and> length (acc_z self) = 2"

section \<open>kalman_filter_velocity\<close>

definition reset_v :: "kalman_filter_velocity \<Rightarrow> kalman_filter_velocity" where
  "reset_v self =
     self\<lparr>ac_x := [0, 0], ac_y := [0, 0], ac_z := [0, 0],
          x := transpose_m [[0, 0]],
          P := [[1, 0], [0, 1]],
          current_position := 0\<rparr>"

text \<open>An object on which \<^verbatim>\<open>__init__\<close> has not yet set an attribute.\<close>

definition blank_v :: kalman_filter_velocity where
  "blank_v = \<lparr>x = [], P = [], Q = [], R = [], C = [],
              ac_x = [], ac_y = [], ac_z = [], current_position = 0,
              Q_coeff = 0, R_coeff = 0\<rparr>"

definition init_v :: kalman_filter_velocity where
  "init_v =
     (let self = reset_v blank_v;
          self = self\<lparr>Q_coeff := 1 / 10000\<rparr>;
          self = self\<lparr>Q := np_scale [[1, 0], [0, 1]] (Q_coeff self)\<rparr>;
          self = self\<lparr>R_coeff := 1 / 1000\<rparr>;
          self = self\<lparr>R := np_scale [[1, 0], [0, 10]] (R_coeff self)\<rparr>
      in self\<lparr>C := [[1, 0], [0, 1]]\<rparr>)"

text \<open>
  \<^verbatim>\<open>update\<close> returns its result, or the exception it raised, together with the object as
  the call left it: the attributes assigned before an exception stay assigned.
  \<open>accel_means_v\<close> is the first block of \<^verbatim>\<open>update\<close> (the rolling histories and their
  means), \<open>update_v\<close> the whole method.
  \<^verbatim>\<open>(position - self.current_position) / dt\<close> raises ZeroDivisionError for \<open>dt = 0\<close> when
  the operands are plain Python numbers, which is what the model follows (numpy scalars
  would give an infinity or a NaN and a warning instead).
\<close>

definition accel_means_v ::
  "kalman_filter_velocity \<Rightarrow> real list
     \<Rightarrow> (error + real \<times> real \<times> real) \<times> kalman_filter_velocity" where
  "accel_means_v self accelerometer =
     (case accelerometer of
        [] \<Rightarrow> (Inl IndexError, self)
      | a0 # _ \<Rightarrow>
         let self = self\<lparr>ac_x := ac_x self @ [a0]\<rparr>;
             self = self\<lparr>ac_y := ac_y self @ [a0]\<rparr>;
             self = self\<lparr>ac_z := ac_z self @ [a0]\<rparr>;
             self = self\<lparr>ac_x := tl (ac_x self)\<rparr>;
             self = self\<lparr>ac_y := tl (ac_y self)\<rparr>;
             self = self\<lparr>ac_z := tl (ac_z self)\<rparr>;
             ac_x_mean = np_mean (ac_x self);
             ac_y_mean = np_mean (ac_y self);
             ac_z_mean = np_mean (ac_z self)
         in (Inr (ac_x_mean, ac_y_mean, ac_z_mean), self))"

definition update_v ::
  "kalman_filter_velocity \<Rightarrow> real list \<Rightarrow> real \<Rightarrow> real \<Rightarrow> real
     \<Rightarrow> (error + real) \<times> kalman_filter_velocity" where
  "update_v self accelerometer pitch position dt =
     (case accel_means_v self accelerometer of
        (Inl e, self) \<Rightarrow> (Inl e, self)
      | (Inr (ac_x_mean, ac_y_mean, ac_z_mean), self) \<Rightarrow>
         let ac_forward = ac_x_mean * cos (radians pitch)
         in if dt = 0 then (Inl ZeroDivisionError, self)
            else
              let speed_from_position = (position - current_position self) / dt;
                  self = self\<lparr>current_position := position\<rparr>;
                  A = [[1, dt], [0, 1]];
                  B = [[- (dt ^ 2) / 2], [dt]];
                  measured_input = transpose_m [[ac_forward]];
                  estimates = transpose_m [[speed_from_position]];
                  x_new = np_add (dot A (x self)) (dot B measured_input);
                  self = self\<lparr>P := np_add (dot A (dot (P self) (transpose_m A))) (Q self)\<rparr>;
                  y_new = np_sub estimates (dot (C self) x_new);
                  S = np_add (dot (C self) (dot (P self) (transpose_m (C self)))) (R self)
              in (case inv S of
                    Inl e \<Rightarrow> (Inl e, self)
                  | Inr S_inv \<Rightarrow>
                      let K = dot (P self) (dot (transpose_m (C self)) S_inv);
                          x_new = np_add x_new (dot K y_new);
                          self = self\<lparr>x := x_new\<rparr>;
                          self = self\<lparr>P := dot (np_sub (eye 2) (dot K (C self))) (P self)\<rparr>
                      in (item (x self) 1 0, self)))"

section \<open>kalman_filter_6dof\<close>

definition reset_6dof :: "kalman_filter_6dof \<Rightarrow> kalman_filter_6dof" where
  "reset_6dof self =
     self\<lparr>x := transpose_m [[0, 0, 0, 0]],
          P := [[1, 0, 0, 0],
                [0, 1, 0, 0],
                [0, 0, 1, 0],
                [0, 0, 0, 1]],
          acc_x := [0, 0], acc_y := [0, 0], acc_z := [0, 0]\<rparr>"

definition blank_6dof :: kalman_filter_6dof where
  "blank_6dof = \<lparr>x = [], P = [], Q = [], R = [], C = [],
                 acc_x = [], acc_y = [], acc_z = []\<rparr>"

definition init_6dof :: kalman_filter_6dof where
  "init_6dof =
     (let self = reset_6dof blank_6dof;
          self = self\<lparr>Q := np_scale [[1, 0, 0, 0],
                                     [0, 1, 0, 0],
                                     [0, 0, 1, 0],
                                     [0, 0, 0, 1]] (1 / 1000000)\<rparr>;
          self = self\<lparr>R := np_scale [[1, 0],
                                     [0, 10]] (1 / 1000)\<rparr>
      in self\<lparr>C := [[1, 0, 0, 0],
                     [0, 0, 1, 0]]\<rparr>)"

text \<open>
  The three appends read \<^verbatim>\<open>accelerometer[0]\<close>, \<^verbatim>\<open>[1]\<close>, \<^verbatim>\<open>[2]\<close> one after the other, so
  a short argument raises IndexError after the earlier appends have happened.
\<close>

definition accel_means_6dof ::
  "kalman_filter_6dof \<Rightarrow> real list
     \<Rightarrow> (error + real \<times> real \<times> real) \<times> kalman_filter_6dof" where
  "accel_means_6dof self accelerometer =
     (case accelerometer of
        [] \<Rightarrow> (Inl IndexError, self)
      | [a0] \<Rightarrow> (Inl IndexError, self\<lparr>acc_x := acc_x self @ [a0]\<rparr>)
      | [a0, a1] \<Rightarrow>
          (Inl IndexError, self\<lparr>acc_x := acc_x self @ [a0], acc_y := acc_y self @ [a1]\<rparr>)
      | a0 # a1 # a2 # _ \<Rightarrow>
         let self = self\<lparr>acc_x := acc_x self @ [a0]\<rparr>;
             self = self\<lparr>acc_y := acc_y self @ [a1]\<rparr>;
             self = self\<lparr>acc_z := acc_z self @ [a2]\<rparr>;
             self = self\<lparr>acc_x := tl (acc_x self)\<rparr>;
             self = self\<lparr>acc_y := tl (acc_y self)\<rparr>;
             self = self\<lparr>acc_z := tl (acc_z self)\<rparr>;
             acc_x_mean = np_mean (acc_x self);
             acc_y_mean = np_mean (acc_y self);
             acc_z_mean = np_mean (acc_z self)
         in (Inr (acc_x_mean, acc_y_mean, acc_z_mean), self))"

definition update_6dof ::
  "kalman_filter_6dof \<Rightarrow> real list \<Rightarrow> real list \<Rightarrow> real
     \<Rightarrow> (error + real \<times> real) \<times> kalman_filter_6dof" where
  "update_6dof self gyroscope accelerometer dt =
     (case accel_means_6dof self accelerometer of
        (Inl e, self) \<Rightarrow> (Inl e, self)
      | (Inr (acc_x_mean, acc_y_mean, acc_z_mean), self) \<Rightarrow>
            (case gyroscope of
               g0 # g1 # g2 # _ \<Rightarrow>
                 let gyro_x = radians g0;
                     gyro_y = radians g1;
                     gyro_z = radians g2
                 in (case item (x self) 0 0 of
                       Inl e \<Rightarrow> (Inl e, self)
                     | Inr roll_current \<Rightarrow>
                    (case item (x self) 2 0 of
                       Inl e \<Rightarrow> (Inl e, self)
                     | Inr pitch_current \<Rightarrow>
                    let accel_roll =
                          arctan2 acc_z_mean
                            (sqrt ((acc_y_mean * acc_y_mean) + (acc_x_mean * acc_x_mean)));
                        accel_pitch =
                          arctan2 (- acc_x_mean)
                            (sqrt ((acc_z_mean * acc_z_mean) + (acc_y_mean * acc_y_mean)));
                        roll_dot = gyro_x
                                   + (sin roll_current * tan pitch_current * gyro_z)
                                   + (cos roll_current * tan pitch_current * gyro_y);
                        pitch_dot = cos roll_current * gyro_z - sin roll_current * gyro_y;
                        A = [[1, - dt, 0, 0],
                             [0, 1, 0, 0],
                             [0, 0, 1, - dt],
                             [0, 0, 0, 1]];
                        B = [[dt, 0],
                             [0, 0],
                             [0, dt],
                             [0, 0]];
                        measured_input = transpose_m [[roll_dot, pitch_dot]];
                        acceleration_estimates = transpose_m [[accel_roll, accel_pitch]];
                        x_new = np_add (dot A (x self)) (dot B measured_input);
                        self = self\<lparr>P := np_add (dot A (dot (P self) (transpose_m A)))
                                              (Q self)\<rparr>;
                        y_new = np_sub acceleration_estimates (dot (C self) x_new);
                        S = np_add (dot (C self) (dot (P self) (transpose_m (C self))))
                              (R self)
                    in (case inv S of
                          Inl e \<Rightarrow> (Inl e, self)
                        | Inr S_inv \<Rightarrow>
                            let K = dot (P self) (dot (transpose_m (C self)) S_inv);
                                x_new = np_add x_new (dot K y_new);
                                self = self\<lparr>x := x_new\<rparr>;
                                self = self\<lparr>P := dot (np_sub (eye 4) (dot K (C self)))
                                                      (P self)\<rparr>
                            in (case item (x self) 0 0 of
                                  Inl e \<Rightarrow> (Inl e, self)
                                | Inr roll \<Rightarrow>
                               (case item (x self) 2 0 of
                                  Inl e \<Rightarrow> (Inl e, self)
                                | Inr pitch \<Rightarrow> (Inr (degrees roll, degrees pitch), self))))))
             | _ \<Rightarrow> (Inl IndexError, self)))"

section \<open>Batch analysis\<close>

text \<open>
  A dataset is a sequence of channels, each a sequence of numbers. The body of
  \<^verbatim>\<open>for i in range(1, len(time_arr))\<close> is one equation of \<open>for_v\<close> (\<open>for_6dof\<close>): the
  remaining indices, the output lists built so far and the filter are passed along, and the
  first exception ends the loop. \<^verbatim>\<open>time_arr[i]\<close> and \<^verbatim>\<open>time_arr[i - 1]\<close> are in range for
  these indices; the other channels may be shorter, which raises IndexError before the
  call of \<^verbatim>\<open>update\<close>.
\<close>

fun for_v ::
  "kalman_filter_velocity \<Rightarrow> real list list \<Rightarrow> nat list \<Rightarrow> real list
     \<Rightarrow> (error + real list) \<times> kalman_filter_velocity" where
  "for_v self dataset [] speed_arr = (Inr speed_arr, self)"
| "for_v self dataset (i # rest) speed_arr =
     (let time_arr = dataset ! 0;
          dt = time_arr ! i - time_arr ! (i - 1)
      in if i < length (dataset ! 1) \<and> i < length (dataset ! 2) \<and> i < length (dataset ! 3)
            \<and> i < length (dataset ! 4) \<and> i < length (dataset ! 5)
         then (case update_v self [dataset ! 1 ! i, dataset ! 2 ! i, dataset ! 3 ! i]
                      (dataset ! 4 ! i) (dataset ! 5 ! i) dt of
                 (Inl e, self') \<Rightarrow> (Inl e, self')
               | (Inr speed, self') \<Rightarrow> for_v self' dataset rest (speed_arr @ [speed]))
         else (Inl IndexError, self))"

definition analyze_dataset_v ::
  "kalman_filter_velocity \<Rightarrow> real list list
     \<Rightarrow> (error + real list) \<times> kalman_filter_velocity" where
  "analyze_dataset_v self dataset =
     (if length dataset < 6 then (Inl IndexError, self)
      else let time_arr = dataset ! 0;
               self = reset_v self
           in for_v self dataset [1..<length time_arr] [0])"

fun for_6dof ::
  "kalman_filter_6dof \<Rightarrow> real list list \<Rightarrow> nat list \<Rightarrow> real list \<Rightarrow> real list
     \<Rightarrow> (error + real list \<times> real list) \<times> kalman_filter_6dof" where
  "for_6dof self dataset [] roll_arr pitch_arr = (Inr (roll_arr, pitch_arr), self)"
| "for_6dof self dataset (i # rest) roll_arr pitch_arr =
     (let time_arr = dataset ! 0;
          dt = time_arr ! i - time_arr ! (i - 1)
      in if i < length (dataset ! 1) \<and> i < length (dataset ! 2) \<and> i < length (dataset ! 3)
            \<and> i < length (dataset ! 4) \<and> i < length (dataset ! 5) \<and> i < length (dataset ! 6)
         then (case update_6dof self [dataset ! 1 ! i, dataset ! 2 ! i, dataset ! 3 ! i]
                      [dataset ! 4 ! i, dataset ! 5 ! i, dataset ! 6 ! i] dt of
                 (Inl e, self') \<Rightarrow> (Inl e, self')
               | (Inr (roll, pitch), self') \<Rightarrow>
                   for_6dof self' dataset rest (roll_arr @ [roll]) (pitch_arr @ [pitch]))
         else (Inl IndexError, self))"

text \<open>
  A sequence of floats that went through \<^verbatim>\<open>zero\<close>: \<^verbatim>\<open>np.mean\<close> of an empty slice is NaN
  (with a warning, no exception), and every sample minus NaN is NaN. \<open>NaNs n\<close> is the
  sequence of \<open>n\<close> NaNs.
\<close>

datatype series = Values "real list" | NaNs nat

definition np_mean_nan :: "real list \<Rightarrow> real option" where
  "np_mean_nan xs = (if xs = [] then None else Some (np_mean xs))"

definition zero :: "real list \<Rightarrow> series" where
  "zero arr =
     (case np_mean_nan (take 100 (drop 100 arr)) of
        None \<Rightarrow> NaNs (length arr)
      | Some calib_val \<Rightarrow> Values (map (\<lambda>x. x - calib_val) arr))"

text \<open>
  \<^verbatim>\<open>scipy.interpolate.UnivariateSpline\<close> is not code of this repository: its constructor,
  which fits a spline to the timestamps and the samples with the smoothing factor, is the
  parameter \<open>spline\<close>. It gives the fitted spline, a function of the time whose value
  may be NaN (\<open>None\<close>), or the exception it raised. The one behaviour taken from the
  library is that FITPACK refuses to fit a cubic spline (the default degree 3) to fewer
  than four points. The second line of \<^verbatim>\<open>smooth\<close>, \<^verbatim>\<open>smoothed_arr(time_arr)\<close>, evaluates
  the fitted spline at every timestamp.
\<close>

type_synonym spline = "real list \<Rightarrow> series \<Rightarrow> real \<Rightarrow> error + (real \<Rightarrow> real option)"

definition smooth ::
  "spline \<Rightarrow> series \<Rightarrow> real list \<Rightarrow> real \<Rightarrow> error + real option list" where
  "smooth spline arr_to_smooth time_arr smooth_coeff =
     (if length time_arr \<le> 3 then Inl FitpackError
      else (case spline time_arr arr_to_smooth smooth_coeff of
              Inl e \<Rightarrow> Inl e
            | Inr smoothed_arr \<Rightarrow> Inr (map smoothed_arr time_arr)))"

definition analyze_dataset_6dof ::
  "spline \<Rightarrow> kalman_filter_6dof \<Rightarrow> real list list
     \<Rightarrow> (error + real option list \<times> real option list) \<times> kalman_filter_6dof" where
  "analyze_dataset_6dof spline self dataset =
     (if length dataset < 7 then (Inl IndexError, self)
      else let time_arr = dataset ! 0;
               self = reset_6dof self
           in (case for_6dof self dataset [1..<length time_arr] [0] [0] of
                 (Inl e, self) \<Rightarrow> (Inl e, self)
               | (Inr (roll_arr, pitch_arr), self) \<Rightarrow>
                   let roll_arr = zero roll_arr;
                       pitch_arr = zero pitch_arr
                   in (case smooth spline roll_arr time_arr 1 of
                         Inl e \<Rightarrow> (Inl e, self)
                       | Inr roll_arr \<Rightarrow>
                      (case smooth spline pitch_arr time_arr 1 of
                         Inl e \<Rightarrow> (Inl e, self)
                       | Inr pitch_arr \<Rightarrow> (Inr (roll_arr, pitch_arr), self)))))"

section \<open>Configuration and state\<close>

text \<open>
  Two filter objects have the same configuration when they agree on the attributes that
  \<^verbatim>\<open>reset\<close> does not assign.
\<close>

definition same_config_v :: "kalman_filter_velocity \<Rightarrow> kalman_filter_velocity \<Rightarrow> bool" where
  "same_config_v a b \<longleftrightarrow>
     Q a = Q b \<and> R a = R b \<and> C a = C b \<and> Q_coeff a = Q_coeff b \<and> R_coeff a = R_coeff b"

definition same_config_6dof :: "kalman_filter_6dof \<Rightarrow> kalman_filter_6dof \<Rightarrow> bool" where
  "same_config_6dof a b \<longleftrightarrow> Q a = Q b \<and> R a = R b \<and> C a = C b"

section \<open>The Kalman equations of the specification\<close>



definition is_inverse :: "mat \<Rightarrow> mat \<Rightarrow> bool" where
  "is_inverse S S_inv \<longleftrightarrow>
     is_mat (length S) (length S) S_inv \<and>
     dot S S_inv = eye (length S) \<and> dot S_inv S = eye (length S)"



definition A_6dof :: "real \<Rightarrow> mat" where
  "A_6dof dt = [[1, - dt, 0, 0],
                [0, 1, 0, 0],
                [0, 0, 1, - dt],
                [0, 0, 0, 1]]"

text \<open>
  Symmetric and positive semi-definite matrices: \<open>v\<^sup>T M v \<ge> 0\<close> for every column vector \<open>v\<close>
  (for a symmetric real matrix this is the same as all eigenvalues being \<open>\<ge> 0\<close>), and
  positive definite ones: \<open>v\<^sup>T M v > 0\<close> for every column vector other than zero.
\<close>

definition symmetric :: "mat \<Rightarrow> bool" where
  "symmetric M \<longleftrightarrow> transpose_m M = M"

definition quad_form :: "mat \<Rightarrow> mat \<Rightarrow> real" where
  "quad_form M v = dot (transpose_m v) (dot M v) ! 0 ! 0"

definition psd :: "nat \<Rightarrow> mat \<Rightarrow> bool" where
  "psd n M \<longleftrightarrow> is_mat n n M \<and> symmetric M \<and> (\<forall>v. is_mat n 1 v \<longrightarrow> 0 \<le> quad_form M v)"

definition pd :: "nat \<Rightarrow> mat \<Rightarrow> bool" where
  "pd n M \<longleftrightarrow>
     is_mat n n M \<and> symmetric M \<and>
     (\<forall>v. is_mat n 1 v \<longrightarrow> v \<noteq> replicate n [0] \<longrightarrow> 0 < quad_form M v)"

section \<open>The block common to both update methods\<close>

text \<open>
  Lines 141 to 152 of \<^verbatim>\<open>kalman_filter_6dof.update\<close> and lines 255 to 266 of
  \<^verbatim>\<open>kalman_filter_velocity.update\<close> are the same text but for the size of the identity
  matrix. \<open>kalman_block\<close> is that text as a function of what it reads: it gives the
  covariance stored by the prediction, and the new state and covariance or the exception of
  \<^verbatim>\<open>np.linalg.inv\<close>. It is not a function of the source; the two \<open>update\<close> functions above
  are proved equal to their block form below (\<open>update_v_block\<close>, \<open>update_6dof_block\<close>).
\<close>

definition kalman_block ::
  "nat \<Rightarrow> mat \<Rightarrow> mat \<Rightarrow> mat \<Rightarrow> mat \<Rightarrow> mat \<Rightarrow> mat \<Rightarrow> mat \<Rightarrow> mat \<Rightarrow> mat
     \<Rightarrow> mat \<times> (error + mat \<times> mat)" where
  "kalman_block n x0 P0 A B measured_input C0 estimates Q0 R0 =
     (let x_new = np_add (dot A x0) (dot B measured_input);
          P1 = np_add (dot A (dot P0 (transpose_m A))) Q0;
          y_new = np_sub estimates (dot C0 x_new);
          S = np_add (dot C0 (dot P1 (transpose_m C0))) R0
      in (P1,
          case inv S of
            Inl e \<Rightarrow> Inl e
          | Inr S_inv \<Rightarrow>
              let K = dot P1 (dot (transpose_m C0) S_inv);
                  x_new = np_add x_new (dot K y_new)
              in Inr (x_new, dot (np_sub (eye n) (dot K C0)) P1)))"

text \<open>The shapes the block's operands have in the two filters.\<close>

definition block_shapes ::
  "nat \<Rightarrow> nat \<Rightarrow> mat \<Rightarrow> mat \<Rightarrow> mat \<Rightarrow> mat \<Rightarrow> mat \<Rightarrow> mat \<Rightarrow> mat \<Rightarrow> mat \<Rightarrow> mat \<Rightarrow> bool" where
  "block_shapes n k x0 P0 A B u C0 z Q0 R0 \<longleftrightarrow>
     0 < n \<and> 0 < k \<and> is_mat n 1 x0 \<and> is_mat n n P0 \<and> is_mat n n A \<and> is_mat n k B \<and>
     is_mat k 1 u \<and> is_mat 2 n C0 \<and> is_mat 2 1 z \<and> is_mat n n Q0 \<and> is_mat 2 2 R0"

text \<open>
  The control input (lines 110 to 124 and 138) and the measurement (lines 117, 118 and 139)
  of the orientation step, from the filter before the step, the gyroscope reading and the
  accelerometer reading.
\<close>

definition u_6dof :: "kalman_filter_6dof \<Rightarrow> real \<Rightarrow> real \<Rightarrow> real \<Rightarrow> mat" where
  "u_6dof self g0 g1 g2 =
     (let roll_current = x self ! 0 ! 0; pitch_current = x self ! 2 ! 0 in
      [[radians g0 + sin roll_current * tan pitch_current * radians g2
          + cos roll_current * tan pitch_current * radians g1],
       [cos roll_current * radians g2 - sin roll_current * radians g1]])"

definition z_6dof :: "kalman_filter_6dof \<Rightarrow> real \<Rightarrow> real \<Rightarrow> real \<Rightarrow> mat" where
  "z_6dof self a0 a1 a2 =
     (let acc_x_mean = (acc_x self ! 1 + a0) / 2; acc_y_mean = (acc_y self ! 1 + a1) / 2;
          acc_z_mean = (acc_z self ! 1 + a2) / 2 in
      [[arctan2 acc_z_mean (sqrt (acc_y_mean * acc_y_mean + acc_x_mean * acc_x_mean))],
       [arctan2 (- acc_x_mean) (sqrt (acc_z_mean * acc_z_mean + acc_y_mean * acc_y_mean))]])"

text \<open>
  What the loop of \<^verbatim>\<open>kalman_filter_6dof.analyze_dataset\<close> reads of sample \<open>i\<close> of a
  dataset: every channel has the sample.
\<close>

definition rows_ok_6dof :: "real list list \<Rightarrow> nat \<Rightarrow> bool" where
  "rows_ok_6dof dataset i \<longleftrightarrow>
     i < length (dataset ! 1) \<and> i < length (dataset ! 2) \<and> i < length (dataset ! 3) \<and>
     i < length (dataset ! 4) \<and> i < length (dataset ! 5) \<and> i < length (dataset ! 6)"

section \<open>Evaluation of the array operations on literals\<close>

lemmas np_eval = np_scale_def transpose_m_def dot_def np_add_def np_sub_def np_zip_def
  bcast_def inv_def eye_def item_def radians_def np_mean_def upt_rec Let_def

lemmas init_eval = init_v_def reset_v_def blank_v_def init_6dof_def reset_6dof_def blank_6dof_def

section \<open>The rolling histories\<close>

lemma update_6dof_histories:
  "acc_x (snd (update_6dof self g a dt)) = acc_x (snd (accel_means_6dof self a))"
  "acc_y (snd (update_6dof self g a dt)) = acc_y (snd (accel_means_6dof self a))"
  "acc_z (snd (update_6dof self g a dt)) = acc_z (snd (accel_means_6dof self a))"
  by (auto simp: update_6dof_def Let_def split: prod.splits sum.splits list.splits)

lemma update_v_histories:
  "ac_x (snd (update_v self a p pos dt)) = ac_x (snd (accel_means_v self a))"
  "ac_y (snd (update_v self a p pos dt)) = ac_y (snd (accel_means_v self a))"
  "ac_z (snd (update_v self a p pos dt)) = ac_z (snd (accel_means_v self a))"
  by (auto simp: update_v_def Let_def item_def split: prod.splits sum.splits list.splits)

lemma length_two: "length xs = 2 \<Longrightarrow> \<exists>u v. xs = [u, v]"
  by (auto simp: length_Suc_conv numeral_2_eq_2)

lemma accel_means_6dof_two:
  assumes "length (acc_x self) = 2" "length (acc_y self) = 2" "length (acc_z self) = 2"
  shows "accel_means_6dof self (a0 # a1 # a2 # rest) =
     (Inr ((acc_x self ! 1 + a0) / 2, (acc_y self ! 1 + a1) / 2, (acc_z self ! 1 + a2) / 2),
      self\<lparr>acc_x := [acc_x self ! 1, a0], acc_y := [acc_y self ! 1, a1],
           acc_z := [acc_z self ! 1, a2]\<rparr>)"
proof -
  from assms obtain u u' v v' w w' where
    "acc_x self = [u, u']" "acc_y self = [v, v']" "acc_z self = [w, w']"
    by (blast dest: length_two)
  then show ?thesis
    by (simp add: accel_means_6dof_def Let_def np_mean_def)
qed

lemma accel_means_v_two:
  assumes "length (ac_x self) = 2" "length (ac_y self) = 2" "length (ac_z self) = 2"
  shows "accel_means_v self (a0 # rest) =
     (Inr ((ac_x self ! 1 + a0) / 2, (ac_y self ! 1 + a0) / 2, (ac_z self ! 1 + a0) / 2),
      self\<lparr>ac_x := [ac_x self ! 1, a0], ac_y := [ac_y self ! 1, a0],
           ac_z := [ac_z self ! 1, a0]\<rparr>)"
proof -
  from assms obtain u u' v v' w w' where
    "ac_x self = [u, u']" "ac_y self = [v, v']" "ac_z self = [w, w']"
    by (blast dest: length_two)
  then show ?thesis
    by (simp add: accel_means_v_def Let_def np_mean_def)
qed

text \<open>
  C2, as the code has it: a rolling history holds two entries, not three. \<^verbatim>\<open>reset\<close> sets
  each history to \<open>[0, 0]\<close>. A step of \<^verbatim>\<open>kalman_filter_6dof\<close> that is given a reading with
  its three components, on a filter whose histories hold two entries, appends the reading of
  each axis to the history of that axis and evicts the oldest entry before it takes the mean:
  the history it leaves, whether the step then returns or raises, is the previous reading and
  the current one, and the smoothed acceleration of the axis is the mean of these two. In
  \<^verbatim>\<open>kalman_filter_velocity\<close> the same holds of the x axis, the one whose mean the step
  uses, and the other two histories keep two entries.
\<close>

theorem rolling_history_two_entries:
  assumes "length (acc_x self) = 2" "length (acc_y self) = 2" "length (acc_z self) = 2"
    and "length (ac_x selfv) = 2" "length (ac_y selfv) = 2" "length (ac_z selfv) = 2"
  shows "fst (accel_means_6dof self (a0 # a1 # a2 # rest)) =
           Inr ((acc_x self ! 1 + a0) / 2, (acc_y self ! 1 + a1) / 2,
                (acc_z self ! 1 + a2) / 2) \<and>
         acc_x (snd (update_6dof self gyroscope (a0 # a1 # a2 # rest) dt)) = [acc_x self ! 1, a0] \<and>
         acc_y (snd (update_6dof self gyroscope (a0 # a1 # a2 # rest) dt)) = [acc_y self ! 1, a1] \<and>
         acc_z (snd (update_6dof self gyroscope (a0 # a1 # a2 # rest) dt)) = [acc_z self ! 1, a2] \<and>
         (\<exists>y_mean z_mean. fst (accel_means_v selfv (b0 # restv)) =
            Inr ((ac_x selfv ! 1 + b0) / 2, y_mean, z_mean)) \<and>
         ac_x (snd (update_v selfv (b0 # restv) pitch position dtv)) = [ac_x selfv ! 1, b0] \<and>
         length (ac_y (snd (update_v selfv (b0 # restv) pitch position dtv))) = 2 \<and>
         length (ac_z (snd (update_v selfv (b0 # restv) pitch position dtv))) = 2 \<and>
         acc_x (reset_6dof s6) = [0, 0] \<and> acc_y (reset_6dof s6) = [0, 0] \<and>
         acc_z (reset_6dof s6) = [0, 0] \<and>
         ac_x (reset_v sv) = [0, 0] \<and> ac_y (reset_v sv) = [0, 0] \<and> ac_z (reset_v sv) = [0, 0]"
proof -
  have "\<exists>y_mean z_mean. fst (accel_means_v selfv (b0 # restv)) =
            Inr ((ac_x selfv ! 1 + b0) / 2, y_mean, z_mean)"
    unfolding accel_means_v_two [OF assms(4-6)] fst_conv by blast
  moreover have "fst (accel_means_6dof self (a0 # a1 # a2 # rest)) =
           Inr ((acc_x self ! 1 + a0) / 2, (acc_y self ! 1 + a1) / 2,
                (acc_z self ! 1 + a2) / 2)"
    unfolding accel_means_6dof_two [OF assms(1-3)] fst_conv ..
  moreover have "acc_x (snd (update_6dof self gyroscope (a0 # a1 # a2 # rest) dt))
        = [acc_x self ! 1, a0]"
    "acc_y (snd (update_6dof self gyroscope (a0 # a1 # a2 # rest) dt)) = [acc_y self ! 1, a1]"
    "acc_z (snd (update_6dof self gyroscope (a0 # a1 # a2 # rest) dt)) = [acc_z self ! 1, a2]"
    by (simp_all add: update_6dof_histories accel_means_6dof_two [OF assms(1-3)])
  moreover have "ac_x (snd (update_v selfv (b0 # restv) pitch position dtv))
        = [ac_x selfv ! 1, b0]"
    "length (ac_y (snd (update_v selfv (b0 # restv) pitch position dtv))) = 2"
    "length (ac_z (snd (update_v selfv (b0 # restv) pitch position dtv))) = 2"
    by (simp_all add: update_v_histories accel_means_v_two [OF assms(4-6)])
  moreover have "acc_x (reset_6dof s6) = [0, 0]" "acc_y (reset_6dof s6) = [0, 0]"
    "acc_z (reset_6dof s6) = [0, 0]" "ac_x (reset_v sv) = [0, 0]" "ac_y (reset_v sv) = [0, 0]"
    "ac_z (reset_v sv) = [0, 0]"
    by (simp_all add: reset_6dof_def reset_v_def)
  ultimately show ?thesis by blast
qed

text \<open>
  The theorem at the freshly constructed filters, the readings 3, 6, 9 for the orientation
  filter and the reading 4 for the velocity filter.
\<close>

theorem rolling_history_two_entries_witness:
  "length (acc_x init_6dof) = 2 \<and> length (acc_y init_6dof) = 2 \<and> length (acc_z init_6dof) = 2 \<and>
   length (ac_x init_v) = 2 \<and> length (ac_y init_v) = 2 \<and> length (ac_z init_v) = 2 \<and>
   fst (accel_means_6dof init_6dof [3, 6, 9]) = Inr (3 / 2, 3, 9 / 2) \<and>
   acc_x (snd (update_6dof init_6dof [0, 0, 0] [3, 6, 9] 1)) = [0, 3] \<and>
   acc_y (snd (update_6dof init_6dof [0, 0, 0] [3, 6, 9] 1)) = [0, 6] \<and>
   acc_z (snd (update_6dof init_6dof [0, 0, 0] [3, 6, 9] 1)) = [0, 9] \<and>
   (\<exists>y_mean z_mean. fst (accel_means_v init_v [4]) = Inr (2, y_mean, z_mean)) \<and>
   ac_x (snd (update_v init_v [4] 0 0 1)) = [0, 4] \<and>
   length (ac_y (snd (update_v init_v [4] 0 0 1))) = 2"
  using rolling_history_two_entries [of init_6dof init_v 3 6 9 "[]" "[0, 0, 0]" 1 4 "[]" 0 0 1]
  by (simp add: init_eval Let_def)

text \<open>
  C2 as stated fails: after \<^verbatim>\<open>reset\<close> and after a step from the constructed filter with the
  x reading 3 the x history holds two entries, and the smoothed x acceleration of that step
  is \<open>3 / 2\<close>, the mean of \<open>[0, 3]\<close>, where three retained samples \<open>0, 0, 3\<close> would give 1.
  Nor do two entries hold after every step: a step that is given the one component 3 raises
  IndexError after its first append and leaves the x history with \<open>[0, 0, 3]\<close>, and the next
  step, with the x reading 6, keeps three entries.
\<close>

theorem rolling_history_counterexample:
  "length (acc_x (reset_6dof init_6dof)) = 2 \<and>
   acc_x (snd (update_6dof init_6dof [0, 0, 0] [3, 6, 9] (1 / 100))) = [0, 3] \<and>
   fst (accel_means_6dof init_6dof [3, 6, 9]) = Inr (3 / 2, 3, 9 / 2) \<and>
   update_6dof init_6dof [0, 0, 0] [3] (1 / 100) = (Inl IndexError, init_6dof\<lparr>acc_x := [0, 0, 3]\<rparr>) \<and>
   acc_x (snd (update_6dof (init_6dof\<lparr>acc_x := [0, 0, 3]\<rparr>) [0, 0, 0] [6, 0, 0] (1 / 100)))
     = [0, 3, 6]"
proof -
  have "update_6dof init_6dof [0, 0, 0] [3] (1 / 100)
      = (Inl IndexError, init_6dof\<lparr>acc_x := [0, 0, 3]\<rparr>)"
    by (simp add: update_6dof_def accel_means_6dof_def init_eval Let_def)
  then show ?thesis
    by (simp add: update_6dof_histories accel_means_6dof_def init_eval Let_def np_mean_def)
qed

section \<open>Properties of the velocity filter's step\<close>

text \<open>
  C10: two calls of \<^verbatim>\<open>kalman_filter_velocity.update\<close> from the same filter whose
  accelerometer arguments agree in component 0 and differ in any way in the other components,
  all other arguments equal, return the same speed (or raise the same exception) and leave the
  same filter behind: the step reads only \<^verbatim>\<open>accelerometer[0]\<close>.
\<close>

theorem update_v_ignores_y_z:
  "update_v self (a0 # rest1) pitch position dt = update_v self (a0 # rest2) pitch position dt"
  by (simp add: update_v_def accel_means_v_def)

text \<open>
  C3, as the code has it: \<^verbatim>\<open>kalman_filter_velocity.update\<close> does not check \<open>dt\<close>. With
  \<open>dt = 0\<close> the call fails with the ZeroDivisionError of its own division, after the three
  histories have taken the new reading; state vector, covariance and previous position are
  as before the call.
\<close>

theorem update_v_zero_dt:
  "update_v self (a0 # rest) pitch position 0 =
     (Inl ZeroDivisionError,
      self\<lparr>ac_x := tl (ac_x self @ [a0]), ac_y := tl (ac_y self @ [a0]),
           ac_z := tl (ac_z self @ [a0])\<rparr>)"
  by (simp add: update_v_def accel_means_v_def Let_def)

text \<open>
  C3 as stated fails. With \<open>dt = - 1\<close> the call on the constructed filter returns a speed
  and stores the new position; with \<open>dt = 0\<close> the error is the ZeroDivisionError and the
  x history has changed.
\<close>

theorem update_v_nonpositive_dt_counterexample:
  "fst (update_v init_v [0, 0, 0] 0 1 (- 1)) = Inr (- (99130011 / 102131111)) \<and>
   current_position (snd (update_v init_v [0, 0, 0] 0 1 (- 1))) = 1 \<and>
   current_position init_v = 0 \<and>
   fst (update_v init_v [3, 0, 0] 0 1 0) = Inl ZeroDivisionError \<and>
   ac_x (snd (update_v init_v [3, 0, 0] 0 1 0)) = [0, 3] \<and>
   ac_x init_v = [0, 0]"
  by (simp add: update_v_def accel_means_v_def init_eval np_eval)

section \<open>Batch analysis: what is kept between runs\<close>

lemma update_v_config:
  "Q (snd (update_v self a p pos dt)) = Q self"
  "R (snd (update_v self a p pos dt)) = R self"
  "C (snd (update_v self a p pos dt)) = C self"
  "Q_coeff (snd (update_v self a p pos dt)) = Q_coeff self"
  "R_coeff (snd (update_v self a p pos dt)) = R_coeff self"
  by (auto simp: update_v_def accel_means_v_def Let_def split: prod.splits sum.splits list.splits)

lemma update_6dof_config:
  "Q (snd (update_6dof self g a dt)) = Q self"
  "R (snd (update_6dof self g a dt)) = R self"
  "C (snd (update_6dof self g a dt)) = C self"
  by (auto simp: update_6dof_def accel_means_6dof_def Let_def
        split: prod.splits sum.splits list.splits)

lemma update_v_same_config:
  "update_v self a p pos dt = (r, self') \<Longrightarrow> same_config_v self' self"
  using update_v_config [of self a p pos dt] by (simp add: same_config_v_def)

lemma update_6dof_same_config:
  "update_6dof self g a dt = (r, self') \<Longrightarrow> same_config_6dof self' self"
  using update_6dof_config [of self g a dt] by (simp add: same_config_6dof_def)

lemma same_config_v_trans:
  "same_config_v a b \<Longrightarrow> same_config_v b c \<Longrightarrow> same_config_v a c"
  by (simp add: same_config_v_def)

lemma same_config_6dof_trans:
  "same_config_6dof a b \<Longrightarrow> same_config_6dof b c \<Longrightarrow> same_config_6dof a c"
  by (simp add: same_config_6dof_def)

lemma for_v_config: "same_config_v (snd (for_v self dataset idx acc)) self"
proof (induction idx arbitrary: self acc)
  case Nil
  show ?case by (simp add: same_config_v_def)
next
  case (Cons i rest)
  show ?case
    by (auto simp: Let_def same_config_v_def [of self self] split: prod.splits sum.splits
          dest!: update_v_same_config intro: same_config_v_trans [OF Cons.IH])
qed

lemma for_6dof_config: "same_config_6dof (snd (for_6dof self dataset idx ra pa)) self"
proof (induction idx arbitrary: self ra pa)
  case Nil
  show ?case by (simp add: same_config_6dof_def)
next
  case (Cons i rest)
  show ?case
    by (auto simp: Let_def same_config_6dof_def [of self self] split: prod.splits sum.splits
          dest!: update_6dof_same_config intro: same_config_6dof_trans [OF Cons.IH])
qed

lemma reset_v_same_config: "same_config_v a b \<Longrightarrow> reset_v a = reset_v b"
  by (cases a, cases b) (simp add: same_config_v_def reset_v_def)

lemma reset_6dof_same_config: "same_config_6dof a b \<Longrightarrow> reset_6dof a = reset_6dof b"
  by (cases a, cases b) (simp add: same_config_6dof_def reset_6dof_def)

lemma reset_v_config: "same_config_v (reset_v self) self"
  by (simp add: same_config_v_def reset_v_def)

lemma reset_6dof_config: "same_config_6dof (reset_6dof self) self"
  by (simp add: same_config_6dof_def reset_6dof_def)

lemma analyze_dataset_v_config: "same_config_v (snd (analyze_dataset_v self dataset)) self"
  using for_v_config [of "reset_v self" dataset]
  by (simp add: analyze_dataset_v_def Let_def same_config_v_def reset_v_def)

lemma analyze_dataset_6dof_config:
  "same_config_6dof (snd (analyze_dataset_6dof spline self dataset)) self"
  using for_6dof_config [of "reset_6dof self" dataset "[1..<length (dataset ! 0)]" "[0]" "[0]"]
  by (auto simp add: analyze_dataset_6dof_def Let_def same_config_6dof_def reset_6dof_def
        split: prod.splits sum.splits)

lemma analyze_dataset_v_same_config:
  "same_config_v a b \<Longrightarrow> fst (analyze_dataset_v a dataset) = fst (analyze_dataset_v b dataset)"
  by (simp add: analyze_dataset_v_def Let_def reset_v_same_config)

lemma analyze_dataset_6dof_same_config:
  "same_config_6dof a b \<Longrightarrow>
   fst (analyze_dataset_6dof spline a dataset) = fst (analyze_dataset_6dof spline b dataset)"
  by (simp add: analyze_dataset_6dof_def Let_def reset_6dof_same_config)

text \<open>
  C9: for either filter, \<^verbatim>\<open>analyze_dataset\<close> run a second time on the object the first run
  left behind, or on that object after a \<^verbatim>\<open>reset\<close>, returns what the first run returned (the
  same sequences, or the same exception): \<^verbatim>\<open>analyze_dataset\<close> resets every attribute a run
  changes, and no run changes \<open>Q\<close>, \<open>R\<close> or \<open>C\<close>.
\<close>

theorem analyze_dataset_rerun:
  "fst (analyze_dataset_v (snd (analyze_dataset_v self dataset)) dataset)
     = fst (analyze_dataset_v self dataset) \<and>
   fst (analyze_dataset_v (reset_v (snd (analyze_dataset_v self dataset))) dataset)
     = fst (analyze_dataset_v self dataset) \<and>
   fst (analyze_dataset_6dof spline (snd (analyze_dataset_6dof spline self6 dataset6)) dataset6)
     = fst (analyze_dataset_6dof spline self6 dataset6) \<and>
   fst (analyze_dataset_6dof spline
          (reset_6dof (snd (analyze_dataset_6dof spline self6 dataset6))) dataset6)
     = fst (analyze_dataset_6dof spline self6 dataset6)"
  by (intro conjI analyze_dataset_v_same_config analyze_dataset_6dof_same_config
        analyze_dataset_v_config analyze_dataset_6dof_config
        same_config_v_trans [OF reset_v_config] same_config_6dof_trans [OF reset_6dof_config])

section \<open>Batch analysis: the offset and the smoothing\<close>

lemma zero_cases:
  "zero arr = (if length arr \<le> 100 then NaNs (length arr)
               else Values (map (\<lambda>x. x - np_mean (take 100 (drop 100 arr))) arr))"
  by (simp add: zero_def np_mean_nan_def)

lemma sum_list_take_drop:
  assumes "a + n \<le> length xs"
  shows "sum_list (take n (drop a xs)) = (\<Sum>i = a..<a + n. xs ! i)"
proof -
  have "sum_list (take n (drop a xs)) = (\<Sum>i = 0..<n. take n (drop a xs) ! i)"
    using assms by (simp add: sum_list_sum_nth)
  also have "\<dots> = (\<Sum>i = 0..<n. xs ! (a + i))"
    using assms by (intro sum.cong) simp_all
  also have "\<dots> = (\<Sum>i = a..<a + n. xs ! i)"
    using sum.shift_bounds_nat_ivl [of "\<lambda>i. xs ! i" 0 a n] by (simp add: add.commute)
  finally show ?thesis .
qed

lemma zero_full_window:
  "200 \<le> length arr \<Longrightarrow>
   zero arr = Values (map (\<lambda>x. x - (\<Sum>i = 100..<200. arr ! i) / 100) arr)"
  using sum_list_take_drop [of 100 100 arr]
  by (simp add: zero_cases np_mean_def)

lemma for_v_length:
  "for_v self dataset idx acc = (Inr out, self') \<Longrightarrow> length out = length acc + length idx"
proof (induction idx arbitrary: self acc)
  case Nil
  then show ?case by simp
next
  case (Cons i rest)
  from Cons.prems show ?case
    by (auto simp: Let_def split: if_splits prod.splits sum.splits dest!: Cons.IH)
qed

lemma for_6dof_length:
  "for_6dof self dataset idx ra pa = (Inr (rolls, pitches), self') \<Longrightarrow>
   length rolls = length ra + length idx \<and> length pitches = length pa + length idx"
proof (induction idx arbitrary: self ra pa)
  case Nil
  then show ?case by simp
next
  case (Cons i rest)
  from Cons.prems show ?case
    by (auto simp: Let_def split: if_splits prod.splits sum.splits dest!: Cons.IH)
qed

text \<open>
  C6, as the code has it: \<^verbatim>\<open>zero\<close> has no minimum length and raises nothing. On more than
  100 samples it subtracts the mean of the samples from index 100 up to index 199 that
  exist, fewer than a hundred of them when the input is shorter than 200; on at most 100
  samples the window is empty and every output is NaN.
\<close>

theorem zero_no_minimum_length:
  "zero arr = (if length arr \<le> 100 then NaNs (length arr)
               else Values (map (\<lambda>x. x - np_mean (take 100 (drop 100 arr))) arr))"
  by (simp add: zero_def np_mean_nan_def)

text \<open>
  C6 as stated fails: on 102 samples \<^verbatim>\<open>zero\<close> returns the samples minus the mean of the
  two samples at indices 100 and 101, and \<^verbatim>\<open>kalman_filter_velocity.analyze_dataset\<close> on a
  dataset of one sample returns the one speed 0.
\<close>

theorem short_dataset_counterexample:
  "zero (replicate 100 0 @ [5, 7]) = Values (replicate 100 (- 6) @ [- 1, 1]) \<and>
   fst (analyze_dataset_v init_v [[0], [0], [0], [0], [0], [0]]) = Inr [0]"
  by (simp add: zero_def np_mean_nan_def np_mean_def analyze_dataset_v_def)

section \<open>Matrices as lists of rows: shapes and entries\<close>

lemma is_mat_length: "is_mat r c M \<Longrightarrow> length M = r"
  by (simp add: is_mat_def)

lemma is_mat_nth: "is_mat r c M \<Longrightarrow> i < r \<Longrightarrow> length (M ! i) = c"
  by (simp add: is_mat_def)

lemma is_matI: "length M = r \<Longrightarrow> (\<And>i. i < r \<Longrightarrow> length (M ! i) = c) \<Longrightarrow> is_mat r c M"
  by (auto simp: is_mat_def in_set_conv_nth)

lemma mat_eqI:
  assumes "is_mat r c A" "is_mat r c B"
    and "\<And>i j. i < r \<Longrightarrow> j < c \<Longrightarrow> A ! i ! j = B ! i ! j"
  shows "A = B"
proof (rule nth_equalityI)
  show "length A = length B" using assms by (simp add: is_mat_length)
next
  fix i assume "i < length A"
  then have i: "i < r" using assms by (simp add: is_mat_length)
  show "A ! i = B ! i"
    using assms i by (intro nth_equalityI) (simp_all add: is_mat_nth)
qed

lemma transpose_m_shape: "is_mat r c M \<Longrightarrow> 0 < r \<Longrightarrow> is_mat c r (transpose_m M)"
  by (cases M) (auto simp: transpose_m_def is_mat_def)

lemma transpose_m_nth:
  "is_mat r c M \<Longrightarrow> i < r \<Longrightarrow> j < c \<Longrightarrow> transpose_m M ! j ! i = M ! i ! j"
  by (cases M; cases i) (auto simp: transpose_m_def is_mat_def)

lemma transpose_m_transpose_m:
  "is_mat r c M \<Longrightarrow> 0 < r \<Longrightarrow> 0 < c \<Longrightarrow> transpose_m (transpose_m M) = M"
proof (rule mat_eqI [of r c])
  assume h: "is_mat r c M" "0 < r" "0 < c"
  then have t: "is_mat c r (transpose_m M)" by (simp add: transpose_m_shape)
  with h show "is_mat r c (transpose_m (transpose_m M))" by (simp add: transpose_m_shape)
  show "is_mat r c M" by fact
  fix i j assume "i < r" "j < c"
  then show "transpose_m (transpose_m M) ! i ! j = M ! i ! j"
    using transpose_m_nth [OF t, of j i] transpose_m_nth [OF h(1), of i j] by simp
qed

lemma dot_shape: "is_mat r n A \<Longrightarrow> is_mat n c B \<Longrightarrow> 0 < n \<Longrightarrow> is_mat r c (dot A B)"
  using transpose_m_shape [of n c B] by (auto simp: dot_def is_mat_def)

lemma sum_list_map2_mult:
  "length xs = n \<Longrightarrow> length ys = n \<Longrightarrow> sum_list (map2 (*) xs ys) = (\<Sum>k<n. xs ! k * ys ! (k::nat) :: real)"
  by (simp add: sum_list_sum_nth atLeast0LessThan)

lemma dot_nth:
  assumes "is_mat r n A" "is_mat n c B" "0 < n" "i < r" "j < c"
  shows "dot A B ! i ! j = (\<Sum>k<n. A ! i ! k * B ! k ! j)"
proof -
  have t: "is_mat c n (transpose_m B)" using assms by (simp add: transpose_m_shape)
  have "dot A B ! i ! j = sum_list (map2 (*) (A ! i) (transpose_m B ! j))"
    using assms t by (simp add: dot_def is_mat_length)
  also have "\<dots> = (\<Sum>k<n. A ! i ! k * transpose_m B ! j ! k)"
    using assms t by (simp add: sum_list_map2_mult is_mat_nth)
  also have "\<dots> = (\<Sum>k<n. A ! i ! k * B ! k ! j)"
    using assms by (intro sum.cong) (simp_all add: transpose_m_nth)
  finally show ?thesis .
qed

lemma bcast_same: "length xs = n \<Longrightarrow> bcast n xs = xs"
  by (cases xs) (auto simp: bcast_def)

lemma np_zip_same_shape:
  assumes "is_mat r c A" "is_mat r c B"
  shows "np_zip f A B = map2 (map2 f) A B"
proof -
  have "map2 (\<lambda>ra rb. let c = max (length ra) (length rb) in map2 f (bcast c ra) (bcast c rb)) A B
      = map2 (map2 f) A B"
  proof (intro map_cong refl)
    fix z assume "z \<in> set (zip A B)"
    then have "fst z \<in> set A" "snd z \<in> set B"
      by (metis prod.collapse set_zip_leftD, metis prod.collapse set_zip_rightD)
    with assms have "length (fst z) = c" "length (snd z) = c" by (auto simp: is_mat_def)
    then show "(case z of (ra, rb) \<Rightarrow> let c = max (length ra) (length rb) in map2 f (bcast c ra) (bcast c rb))
       = (case z of (ra, rb) \<Rightarrow> map2 f ra rb)"
      by (cases z) (simp add: bcast_same)
  qed
  then show ?thesis
    using assms by (simp add: np_zip_def is_mat_length bcast_same)
qed

lemma np_zip_shape: "is_mat r c A \<Longrightarrow> is_mat r c B \<Longrightarrow> is_mat r c (np_zip f A B)"
  by (rule is_matI) (simp_all add: np_zip_same_shape is_mat_length is_mat_nth)

lemma np_zip_nth:
  "is_mat r c A \<Longrightarrow> is_mat r c B \<Longrightarrow> i < r \<Longrightarrow> j < c \<Longrightarrow>
   np_zip f A B ! i ! j = f (A ! i ! j) (B ! i ! j)"
  by (simp add: np_zip_same_shape is_mat_length is_mat_nth)


lemma np_add_shape: "is_mat r c A \<Longrightarrow> is_mat r c B \<Longrightarrow> is_mat r c (np_add A B)"
  by (simp add: np_add_def np_zip_shape)

lemma np_sub_shape: "is_mat r c A \<Longrightarrow> is_mat r c B \<Longrightarrow> is_mat r c (np_sub A B)"
  by (simp add: np_sub_def np_zip_shape)

lemma np_add_nth:
  "is_mat r c A \<Longrightarrow> is_mat r c B \<Longrightarrow> i < r \<Longrightarrow> j < c \<Longrightarrow>
   np_add A B ! i ! j = A ! i ! j + B ! i ! j"
  by (simp add: np_add_def np_zip_nth)

lemma np_sub_nth:
  "is_mat r c A \<Longrightarrow> is_mat r c B \<Longrightarrow> i < r \<Longrightarrow> j < c \<Longrightarrow>
   np_sub A B ! i ! j = A ! i ! j - B ! i ! j"
  by (simp add: np_sub_def np_zip_nth)

lemma eye_shape: "is_mat n n (eye n)"
  by (simp add: eye_def is_mat_def)

lemma eye_nth: "i < n \<Longrightarrow> j < n \<Longrightarrow> eye n ! i ! j = (if i = j then 1 else 0)"
  by (simp add: eye_def)

lemma dot_assoc:
  assumes A: "is_mat r n A" and B: "is_mat n m B" and D: "is_mat m c D"
    and n: "0 < n" and m: "0 < m"
  shows "dot (dot A B) D = dot A (dot B D)"
proof (rule mat_eqI [of r c])
  have AB: "is_mat r m (dot A B)" by (rule dot_shape [OF A B n])
  have BD: "is_mat n c (dot B D)" by (rule dot_shape [OF B D m])
  show "is_mat r c (dot (dot A B) D)" by (rule dot_shape [OF AB D m])
  show "is_mat r c (dot A (dot B D))" by (rule dot_shape [OF A BD n])
  fix i j assume i: "i < r" and j: "j < c"
  have "dot (dot A B) D ! i ! j = (\<Sum>k<m. dot A B ! i ! k * D ! k ! j)"
    by (rule dot_nth [OF AB D m i j])
  also have "\<dots> = (\<Sum>k<m. (\<Sum>l<n. A ! i ! l * B ! l ! k) * D ! k ! j)"
    by (intro sum.cong refl) (simp add: dot_nth [OF A B n i])
  also have "\<dots> = (\<Sum>k<m. \<Sum>l<n. A ! i ! l * (B ! l ! k * D ! k ! j))"
    by (simp add: sum_distrib_right mult.assoc)
  also have "\<dots> = (\<Sum>l<n. \<Sum>k<m. A ! i ! l * (B ! l ! k * D ! k ! j))"
    by (rule sum.swap)
  also have "\<dots> = (\<Sum>l<n. A ! i ! l * (\<Sum>k<m. B ! l ! k * D ! k ! j))"
    by (simp add: sum_distrib_left)
  also have "\<dots> = (\<Sum>l<n. A ! i ! l * dot B D ! l ! j)"
    by (intro sum.cong refl) (simp add: dot_nth [OF B D m _ j])
  also have "\<dots> = dot A (dot B D) ! i ! j"
    by (rule dot_nth [OF A BD n i j, symmetric])
  finally show "dot (dot A B) D ! i ! j = dot A (dot B D) ! i ! j" .
qed

lemma dot_zip_left:
  assumes A: "is_mat r n A" and B: "is_mat r n B" and D: "is_mat n c D" and n: "0 < n"
    and f: "\<And>a b d. f (a * d) (b * d) = f a b * (d::real)"
      "\<And>g h. (\<Sum>k<n. f (g k) (h k)) = f (sum g {..<n}) (sum h {..<n})"
  shows "dot (np_zip f A B) D = np_zip f (dot A D) (dot B D)"
proof (rule mat_eqI [of r c])
  have Z: "is_mat r n (np_zip f A B)" by (rule np_zip_shape [OF A B])
  have AD: "is_mat r c (dot A D)" by (rule dot_shape [OF A D n])
  have BD: "is_mat r c (dot B D)" by (rule dot_shape [OF B D n])
  show "is_mat r c (dot (np_zip f A B) D)" by (rule dot_shape [OF Z D n])
  show "is_mat r c (np_zip f (dot A D) (dot B D))" by (rule np_zip_shape [OF AD BD])
  fix i j assume i: "i < r" and j: "j < c"
  have "dot (np_zip f A B) D ! i ! j = (\<Sum>k<n. np_zip f A B ! i ! k * D ! k ! j)"
    by (rule dot_nth [OF Z D n i j])
  also have "\<dots> = (\<Sum>k<n. f (A ! i ! k) (B ! i ! k) * D ! k ! j)"
    by (intro sum.cong refl) (simp add: np_zip_nth [OF A B i])
  also have "\<dots> = (\<Sum>k<n. f (A ! i ! k * D ! k ! j) (B ! i ! k * D ! k ! j))"
    by (simp add: f(1))
  also have "\<dots> = f (\<Sum>k<n. A ! i ! k * D ! k ! j) (\<Sum>k<n. B ! i ! k * D ! k ! j)"
    by (rule f(2))
  also have "\<dots> = np_zip f (dot A D) (dot B D) ! i ! j"
    by (simp add: np_zip_nth [OF AD BD i j] dot_nth [OF A D n i j] dot_nth [OF B D n i j])
  finally show "dot (np_zip f A B) D ! i ! j = np_zip f (dot A D) (dot B D) ! i ! j" .
qed

lemma dot_zip_right:
  assumes D: "is_mat r n D" and A: "is_mat n c A" and B: "is_mat n c B" and n: "0 < n"
    and f: "\<And>a b d. f (d * a) (d * b) = (d::real) * f a b"
      "\<And>g h. (\<Sum>k<n. f (g k) (h k)) = f (sum g {..<n}) (sum h {..<n})"
  shows "dot D (np_zip f A B) = np_zip f (dot D A) (dot D B)"
proof (rule mat_eqI [of r c])
  have Z: "is_mat n c (np_zip f A B)" by (rule np_zip_shape [OF A B])
  have DA: "is_mat r c (dot D A)" by (rule dot_shape [OF D A n])
  have DB: "is_mat r c (dot D B)" by (rule dot_shape [OF D B n])
  show "is_mat r c (dot D (np_zip f A B))" by (rule dot_shape [OF D Z n])
  show "is_mat r c (np_zip f (dot D A) (dot D B))" by (rule np_zip_shape [OF DA DB])
  fix i j assume i: "i < r" and j: "j < c"
  have "dot D (np_zip f A B) ! i ! j = (\<Sum>k<n. D ! i ! k * np_zip f A B ! k ! j)"
    by (rule dot_nth [OF D Z n i j])
  also have "\<dots> = (\<Sum>k<n. D ! i ! k * f (A ! k ! j) (B ! k ! j))"
    by (intro sum.cong refl) (simp add: np_zip_nth [OF A B _ j])
  also have "\<dots> = (\<Sum>k<n. f (D ! i ! k * A ! k ! j) (D ! i ! k * B ! k ! j))"
    by (simp add: f(1))
  also have "\<dots> = f (\<Sum>k<n. D ! i ! k * A ! k ! j) (\<Sum>k<n. D ! i ! k * B ! k ! j)"
    by (rule f(2))
  also have "\<dots> = np_zip f (dot D A) (dot D B) ! i ! j"
    by (simp add: np_zip_nth [OF DA DB i j] dot_nth [OF D A n i j] dot_nth [OF D B n i j])
  finally show "dot D (np_zip f A B) ! i ! j = np_zip f (dot D A) (dot D B) ! i ! j" .
qed

lemma dot_add_left:
  "is_mat r n A \<Longrightarrow> is_mat r n B \<Longrightarrow> is_mat n c D \<Longrightarrow> 0 < n \<Longrightarrow>
   dot (np_add A B) D = np_add (dot A D) (dot B D)"
  unfolding np_add_def by (rule dot_zip_left) (simp_all add: distrib_right sum.distrib)

lemma dot_sub_left:
  "is_mat r n A \<Longrightarrow> is_mat r n B \<Longrightarrow> is_mat n c D \<Longrightarrow> 0 < n \<Longrightarrow>
   dot (np_sub A B) D = np_sub (dot A D) (dot B D)"
  unfolding np_sub_def by (rule dot_zip_left) (simp_all add: left_diff_distrib sum_subtractf)

lemma dot_add_right:
  "is_mat r n D \<Longrightarrow> is_mat n c A \<Longrightarrow> is_mat n c B \<Longrightarrow> 0 < n \<Longrightarrow>
   dot D (np_add A B) = np_add (dot D A) (dot D B)"
  unfolding np_add_def by (rule dot_zip_right) (simp_all add: distrib_left sum.distrib)

lemma dot_sub_right:
  "is_mat r n D \<Longrightarrow> is_mat n c A \<Longrightarrow> is_mat n c B \<Longrightarrow> 0 < n \<Longrightarrow>
   dot D (np_sub A B) = np_sub (dot D A) (dot D B)"
  unfolding np_sub_def by (rule dot_zip_right) (simp_all add: right_diff_distrib sum_subtractf)

lemma transpose_m_dot:
  assumes A: "is_mat r n A" and B: "is_mat n c B" and r: "0 < r" and n: "0 < n" and c: "0 < c"
  shows "transpose_m (dot A B) = dot (transpose_m B) (transpose_m A)"
proof (rule mat_eqI [of c r])
  have AB: "is_mat r c (dot A B)" by (rule dot_shape [OF A B n])
  have tA: "is_mat n r (transpose_m A)" by (rule transpose_m_shape [OF A r])
  have tB: "is_mat c n (transpose_m B)" by (rule transpose_m_shape [OF B n])
  show "is_mat c r (transpose_m (dot A B))" by (rule transpose_m_shape [OF AB r])
  show "is_mat c r (dot (transpose_m B) (transpose_m A))" by (rule dot_shape [OF tB tA n])
  fix i j assume i: "i < c" and j: "j < r"
  have "transpose_m (dot A B) ! i ! j = dot A B ! j ! i"
    by (rule transpose_m_nth [OF AB j i])
  also have "\<dots> = (\<Sum>k<n. A ! j ! k * B ! k ! i)"
    by (rule dot_nth [OF A B n j i])
  also have "\<dots> = (\<Sum>k<n. transpose_m B ! i ! k * transpose_m A ! k ! j)"
    by (intro sum.cong refl)
       (simp add: transpose_m_nth [OF B _ i] transpose_m_nth [OF A j] mult.commute)
  also have "\<dots> = dot (transpose_m B) (transpose_m A) ! i ! j"
    by (rule dot_nth [OF tB tA n i j, symmetric])
  finally show "transpose_m (dot A B) ! i ! j = dot (transpose_m B) (transpose_m A) ! i ! j" .
qed

lemma transpose_m_np_zip:
  assumes A: "is_mat r c A" and B: "is_mat r c B" and r: "0 < r"
  shows "transpose_m (np_zip f A B) = np_zip f (transpose_m A) (transpose_m B)"
proof (rule mat_eqI [of c r])
  have Z: "is_mat r c (np_zip f A B)" by (rule np_zip_shape [OF A B])
  have tA: "is_mat c r (transpose_m A)" by (rule transpose_m_shape [OF A r])
  have tB: "is_mat c r (transpose_m B)" by (rule transpose_m_shape [OF B r])
  show "is_mat c r (transpose_m (np_zip f A B))" by (rule transpose_m_shape [OF Z r])
  show "is_mat c r (np_zip f (transpose_m A) (transpose_m B))" by (rule np_zip_shape [OF tA tB])
  fix i j assume i: "i < c" and j: "j < r"
  show "transpose_m (np_zip f A B) ! i ! j = np_zip f (transpose_m A) (transpose_m B) ! i ! j"
    by (simp add: transpose_m_nth [OF Z j i] np_zip_nth [OF A B j i] np_zip_nth [OF tA tB i j]
          transpose_m_nth [OF A j i] transpose_m_nth [OF B j i])
qed

lemma dot_eye_left:
  assumes M: "is_mat n c M" and n: "0 < n"
  shows "dot (eye n) M = M"
proof (rule mat_eqI [of n c])
  show "is_mat n c (dot (eye n) M)" by (rule dot_shape [OF eye_shape M n])
  show "is_mat n c M" by fact
  fix i j assume i: "i < n" and j: "j < c"
  have "dot (eye n) M ! i ! j = (\<Sum>k<n. eye n ! i ! k * M ! k ! j)"
    by (rule dot_nth [OF eye_shape M n i j])
  also have "\<dots> = (\<Sum>k<n. if k = i then M ! k ! j else 0)"
    by (intro sum.cong refl) (simp add: eye_nth [OF i])
  also have "\<dots> = M ! i ! j" using i by simp
  finally show "dot (eye n) M ! i ! j = M ! i ! j" .
qed

lemma dot_eye_right:
  assumes M: "is_mat r n M" and n: "0 < n"
  shows "dot M (eye n) = M"
proof (rule mat_eqI [of r n])
  show "is_mat r n (dot M (eye n))" by (rule dot_shape [OF M eye_shape n])
  show "is_mat r n M" by fact
  fix i j assume i: "i < r" and j: "j < n"
  have "dot M (eye n) ! i ! j = (\<Sum>k<n. M ! i ! k * eye n ! k ! j)"
    by (rule dot_nth [OF M eye_shape n i j])
  also have "\<dots> = (\<Sum>k<n. if k = j then M ! i ! k else 0)"
    by (intro sum.cong refl) (simp add: eye_nth [OF _ j])
  also have "\<dots> = M ! i ! j" using j by simp
  finally show "dot M (eye n) ! i ! j = M ! i ! j" .
qed

lemma transpose_m_eye: "0 < n \<Longrightarrow> transpose_m (eye n) = eye n"
  by (rule mat_eqI [of n n])
     (auto simp: transpose_m_shape eye_shape transpose_m_nth [OF eye_shape] eye_nth)

section \<open>The inverse, the block and the specification's equations\<close>

lemma is_mat_2_2: "is_mat 2 2 M \<Longrightarrow> \<exists>a b c d. M = [[a, b], [c, d]]"
  by (auto simp: is_mat_def length_Suc_conv numeral_2_eq_2)

lemma is_mat_2_2_lit [simp]: "is_mat 2 2 [[a, b], [c, d]]"
  by (simp add: is_mat_def)

lemma dot_2_2: "dot [[a, b], [c, d]] [[e, f], [g, h]]
   = [[a * e + b * g, a * f + b * h], [c * e + d * g, c * f + d * h]]"
  by (simp add: dot_def transpose_m_def upt_rec)

lemma eye_2: "eye 2 = [[1, 0], [0, 1]]"
  by (simp add: eye_def upt_rec)

lemma inv_2_2:
  "inv [[a, b], [c, d]] =
     (if a * d - b * c = 0 then Inl LinAlgError
      else Inr [[d / (a * d - b * c), - b / (a * d - b * c)],
                [- c / (a * d - b * c), a / (a * d - b * c)]])"
  by (simp add: inv_def)

lemma inv_Inr:
  assumes "inv S = Inr S_inv"
  shows "is_mat 2 2 S \<and> is_mat 2 2 S_inv \<and> is_inverse S S_inv"
proof -
  from assms obtain a b c d where S: "S = [[a, b], [c, d]]"
    by (auto simp: inv_def split: list.splits)
  with assms have d: "a * d - b * c \<noteq> 0"
    and Si: "S_inv = [[d / (a * d - b * c), - b / (a * d - b * c)],
                [- c / (a * d - b * c), a / (a * d - b * c)]]"
    by (auto simp: inv_2_2 split: if_splits)
  define D where "D = a * d - b * c"
  have e: "a * d - b * c = D" "D \<noteq> 0" using d by (simp_all add: D_def)
  have q: "a * (d / D) + b * (- c / D) = 1" "a * (- b / D) + b * (a / D) = 0"
    "c * (d / D) + d * (- c / D) = 0" "c * (- b / D) + d * (a / D) = 1"
    "d / D * a + - b / D * c = 1" "d / D * b + - b / D * d = 0"
    "- c / D * a + a / D * c = 0" "- c / D * b + a / D * d = 1"
    using e by (simp_all add: field_simps)
  have "dot S S_inv = eye 2" "dot S_inv S = eye 2"
    unfolding S Si dot_2_2 eye_2 e(1) using q by simp_all
  moreover have "length S = 2" "is_mat 2 2 S" "is_mat 2 2 S_inv"
    by (simp_all add: S Si e(1))
  ultimately show ?thesis
    by (simp add: is_inverse_def)
qed

lemma transpose_m_row1 [simp]: "transpose_m [[a]] = [[a]]"
  by (simp add: transpose_m_def)

lemma transpose_m_row2 [simp]: "transpose_m [[a, b]] = [[a], [b]]"
  by (simp add: transpose_m_def upt_rec)


lemma update_6dof_block:
  "update_6dof self (g0 # g1 # g2 # grest) (a0 # a1 # a2 # arest) dt =
     (let self1 = snd (accel_means_6dof self (a0 # a1 # a2 # arest));
          m = projr (fst (accel_means_6dof self (a0 # a1 # a2 # arest)));
          acc_x_mean = fst m; acc_y_mean = fst (snd m); acc_z_mean = snd (snd m)
      in case item (x self) 0 0 of Inl e \<Rightarrow> (Inl e, self1) | Inr roll_current \<Rightarrow>
         (case item (x self) 2 0 of Inl e \<Rightarrow> (Inl e, self1) | Inr pitch_current \<Rightarrow>
           (case kalman_block 4 (x self) (P self) (A_6dof dt) [[dt, 0], [0, 0], [0, dt], [0, 0]]
                   [[radians g0 + sin roll_current * tan pitch_current * radians g2
                       + cos roll_current * tan pitch_current * radians g1],
                    [cos roll_current * radians g2 - sin roll_current * radians g1]]
                   (C self)
                   [[arctan2 acc_z_mean (sqrt (acc_y_mean * acc_y_mean + acc_x_mean * acc_x_mean))],
                    [arctan2 (- acc_x_mean) (sqrt (acc_z_mean * acc_z_mean + acc_y_mean * acc_y_mean))]]
                   (Q self) (R self) of
              (P1, Inl e) \<Rightarrow> (Inl e, self1\<lparr>P := P1\<rparr>)
            | (P1, Inr (x_new, P2)) \<Rightarrow> 
                (case item x_new 0 0 of Inl e \<Rightarrow> (Inl e, self1\<lparr>x := x_new, P := P2\<rparr>) | Inr roll \<Rightarrow>
                  (case item x_new 2 0 of Inl e \<Rightarrow> (Inl e, self1\<lparr>x := x_new, P := P2\<rparr>)
                   | Inr pitch \<Rightarrow> (Inr (degrees roll, degrees pitch), self1\<lparr>x := x_new, P := P2\<rparr>))))))"
  by (simp add: update_6dof_def accel_means_6dof_def kalman_block_def A_6dof_def Let_def split: sum.splits)




lemma kalman_block_shapes:
  assumes sh: "block_shapes n k x0 P0 A B u C0 z Q0 R0"
  defines "x1 \<equiv> np_add (dot A x0) (dot B u)"
    and "P1 \<equiv> np_add (dot A (dot P0 (transpose_m A))) Q0"
  defines "y \<equiv> np_sub z (dot C0 x1)"
    and "S \<equiv> np_add (dot C0 (dot P1 (transpose_m C0))) R0"
  shows "is_mat n 1 (dot A x0)" "is_mat n 1 (dot B u)" "is_mat n 1 x1"
    "is_mat n n (transpose_m A)" "is_mat n n (dot P0 (transpose_m A))"
    "is_mat n n (dot A (dot P0 (transpose_m A)))" "is_mat n n P1"
    "is_mat 2 1 (dot C0 x1)" "is_mat 2 1 y"
    "is_mat n 2 (transpose_m C0)" "is_mat n 2 (dot P1 (transpose_m C0))"
    "is_mat 2 2 (dot C0 (dot P1 (transpose_m C0)))" "is_mat 2 2 S"
proof -
  from sh have n: "0 < n" and k: "0 < k" and x0: "is_mat n 1 x0" and P0: "is_mat n n P0"
    and A: "is_mat n n A" and B: "is_mat n k B" and u: "is_mat k 1 u" and C0: "is_mat 2 n C0"
    and z: "is_mat 2 1 z" and Q0: "is_mat n n Q0" and R0: "is_mat 2 2 R0"
    by (simp_all add: block_shapes_def)
  show a1: "is_mat n 1 (dot A x0)" by (rule dot_shape [OF A x0 n])
  show a2: "is_mat n 1 (dot B u)" by (rule dot_shape [OF B u k])
  show a3: "is_mat n 1 x1" unfolding x1_def by (rule np_add_shape [OF a1 a2])
  show a4: "is_mat n n (transpose_m A)" by (rule transpose_m_shape [OF A n])
  show a5: "is_mat n n (dot P0 (transpose_m A))" by (rule dot_shape [OF P0 a4 n])
  show a6: "is_mat n n (dot A (dot P0 (transpose_m A)))" by (rule dot_shape [OF A a5 n])
  show a7: "is_mat n n P1" unfolding P1_def by (rule np_add_shape [OF a6 Q0])
  show a8: "is_mat 2 1 (dot C0 x1)" by (rule dot_shape [OF C0 a3 n])
  show "is_mat 2 1 y" unfolding y_def by (rule np_sub_shape [OF z a8])
  show a9: "is_mat n 2 (transpose_m C0)" by (rule transpose_m_shape [OF C0]) simp
  show a10: "is_mat n 2 (dot P1 (transpose_m C0))" by (rule dot_shape [OF a7 a9 n])
  show a11: "is_mat 2 2 (dot C0 (dot P1 (transpose_m C0)))" by (rule dot_shape [OF C0 a10 n])
  show "is_mat 2 2 S" unfolding S_def by (rule np_add_shape [OF a11 R0])
qed


lemma is_mat_2_1: "is_mat 2 1 M \<Longrightarrow> \<exists>a b. M = [[a], [b]]"
  by (auto simp: is_mat_def length_Suc_conv numeral_2_eq_2)




lemma block_shapes_6dof:
  "wf_6dof self \<Longrightarrow>
   block_shapes 4 2 (x self) (P self) (A_6dof dt) [[dt, 0], [0, 0], [0, dt], [0, 0]] [[u], [u']]
     (C self) [[z], [z']] (Q self) (R self)"
  by (simp add: wf_6dof_def block_shapes_def A_6dof_def is_mat_def)

lemma item_in_range: "is_mat r c M \<Longrightarrow> i < r \<Longrightarrow> j < c \<Longrightarrow> item M i j = Inr (M ! i ! j)"
  by (simp add: item_def is_mat_length is_mat_nth)

lemma kalman_block_result_shapes:
  assumes sh: "block_shapes n k x0 P0 A B u C0 z Q0 R0"
    and ok: "snd (kalman_block n x0 P0 A B u C0 z Q0 R0) = Inr (xf, Pf)"
  shows "is_mat n 1 xf" "is_mat n n Pf"
proof -
  define x1 where "x1 = np_add (dot A x0) (dot B u)"
  define P1 where "P1 = np_add (dot A (dot P0 (transpose_m A))) Q0"
  define y where "y = np_sub z (dot C0 x1)"
  define S where "S = np_add (dot C0 (dot P1 (transpose_m C0))) R0"
  note s = kalman_block_shapes [OF sh, folded x1_def P1_def, folded y_def S_def]
  from sh have n: "0 < n" and C0: "is_mat 2 n C0" by (simp_all add: block_shapes_def)
  from ok obtain Si where Si: "inv S = Inr Si"
    and xf: "xf = np_add x1 (dot (dot P1 (dot (transpose_m C0) Si)) y)"
    and Pf: "Pf = dot (np_sub (eye n) (dot (dot P1 (dot (transpose_m C0) Si)) C0)) P1"
    by (auto simp: kalman_block_def Let_def x1_def P1_def y_def S_def split: sum.splits)
  from inv_Inr [OF Si] have Si2: "is_mat 2 2 Si" by simp
  have CS: "is_mat n 2 (dot (transpose_m C0) Si)" by (rule dot_shape [OF s(10) Si2]) simp
  have K: "is_mat n 2 (dot P1 (dot (transpose_m C0) Si))" by (rule dot_shape [OF s(7) CS n])
  have Ky: "is_mat n 1 (dot (dot P1 (dot (transpose_m C0) Si)) y)"
    by (rule dot_shape [OF K s(9)]) simp
  have KC: "is_mat n n (dot (dot P1 (dot (transpose_m C0) Si)) C0)"
    by (rule dot_shape [OF K C0]) simp
  show "is_mat n 1 xf" unfolding xf by (rule np_add_shape [OF s(3) Ky])
  show "is_mat n n Pf" unfolding Pf
    by (rule dot_shape [OF np_sub_shape [OF eye_shape KC] s(7) n])
qed




lemma block_shapes_6dof':
  "wf_6dof self \<Longrightarrow>
   block_shapes 4 2 (x self) (P self) (A_6dof dt) [[dt, 0], [0, 0], [0, dt], [0, 0]]
     (u_6dof self g0 g1 g2) (C self) (z_6dof self a0 a1 a2) (Q self) (R self)"
  by (simp add: u_6dof_def z_6dof_def Let_def block_shapes_6dof)

lemma update_6dof_wf_block:
  assumes wf: "wf_6dof self"
  shows "update_6dof self (g0 # g1 # g2 # grest) (a0 # a1 # a2 # arest) dt =
     (case kalman_block 4 (x self) (P self) (A_6dof dt) [[dt, 0], [0, 0], [0, dt], [0, 0]]
             (u_6dof self g0 g1 g2) (C self) (z_6dof self a0 a1 a2) (Q self) (R self) of
        (P1, Inl e) \<Rightarrow>
          (Inl e, self\<lparr>acc_x := [acc_x self ! 1, a0], acc_y := [acc_y self ! 1, a1],
                        acc_z := [acc_z self ! 1, a2], P := P1\<rparr>)
      | (P1, Inr (x_new, P2)) \<Rightarrow>
          (case item x_new 0 0 of
             Inl e \<Rightarrow> (Inl e, self\<lparr>acc_x := [acc_x self ! 1, a0], acc_y := [acc_y self ! 1, a1],
                        acc_z := [acc_z self ! 1, a2], x := x_new, P := P2\<rparr>)
           | Inr roll \<Rightarrow>
           (case item x_new 2 0 of
             Inl e \<Rightarrow> (Inl e, self\<lparr>acc_x := [acc_x self ! 1, a0], acc_y := [acc_y self ! 1, a1],
                        acc_z := [acc_z self ! 1, a2], x := x_new, P := P2\<rparr>)
           | Inr pitch \<Rightarrow>
              (Inr (degrees roll, degrees pitch),
               self\<lparr>acc_x := [acc_x self ! 1, a0], acc_y := [acc_y self ! 1, a1],
                    acc_z := [acc_z self ! 1, a2], x := x_new, P := P2\<rparr>))))"
proof -
  have m: "accel_means_6dof self (a0 # a1 # a2 # arest) =
     (Inr ((acc_x self ! 1 + a0) / 2, (acc_y self ! 1 + a1) / 2, (acc_z self ! 1 + a2) / 2),
      self\<lparr>acc_x := [acc_x self ! 1, a0], acc_y := [acc_y self ! 1, a1],
           acc_z := [acc_z self ! 1, a2]\<rparr>)"
    using wf by (intro accel_means_6dof_two) (simp_all add: wf_6dof_def)
  have i: "item (x self) 0 0 = Inr (x self ! 0 ! 0)" "item (x self) 2 0 = Inr (x self ! 2 ! 0)"
    using wf by (simp_all add: wf_6dof_def item_in_range [where r=4 and c=1])
  show ?thesis
    unfolding update_6dof_block Let_def m i u_6dof_def z_6dof_def
    by (simp split: prod.splits sum.splits)
qed


section \<open>Positive semi-definite matrices and the Joseph form\<close>

lemma np_add_sub_cancel:
  assumes A: "is_mat r c A" and B: "is_mat r c B"
  shows "np_add (np_sub A B) B = A"
proof (rule mat_eqI [of r c])
  show "is_mat r c (np_add (np_sub A B) B)" by (rule np_add_shape [OF np_sub_shape [OF A B] B])
  show "is_mat r c A" by fact
  fix i j assume "i < r" "j < c"
  then show "np_add (np_sub A B) B ! i ! j = A ! i ! j"
    by (simp add: np_add_nth [OF np_sub_shape [OF A B] B] np_sub_nth [OF A B])
qed

lemma np_sub_add_cancel:
  assumes U: "is_mat r c U" and V: "is_mat r c V"
  shows "np_sub (np_add U V) U = V"
proof (rule mat_eqI [of r c])
  show "is_mat r c (np_sub (np_add U V) U)" by (rule np_sub_shape [OF np_add_shape [OF U V] U])
  show "is_mat r c V" by fact
  fix i j assume "i < r" "j < c"
  then show "np_sub (np_add U V) U ! i ! j = V ! i ! j"
    by (simp add: np_sub_nth [OF np_add_shape [OF U V] U] np_add_nth [OF U V])
qed

lemma quad_form_add:
  assumes A: "is_mat n n A" and B: "is_mat n n B" and v: "is_mat n 1 v" and n: "0 < n"
  shows "quad_form (np_add A B) v = quad_form A v + quad_form B v"
proof -
  have tv: "is_mat 1 n (transpose_m v)" by (rule transpose_m_shape [OF v n])
  have Av: "is_mat n 1 (dot A v)" by (rule dot_shape [OF A v n])
  have Bv: "is_mat n 1 (dot B v)" by (rule dot_shape [OF B v n])
  have "dot (transpose_m v) (dot (np_add A B) v)
      = np_add (dot (transpose_m v) (dot A v)) (dot (transpose_m v) (dot B v))"
    by (simp add: dot_add_left [OF A B v n] dot_add_right [OF tv Av Bv n])
  then show ?thesis
    unfolding quad_form_def
    by (simp add: np_add_nth [OF dot_shape [OF tv Av n] dot_shape [OF tv Bv n]])
qed

lemma quad_form_congruence:
  assumes X: "is_mat r n X" and M: "is_mat n n M" and v: "is_mat r 1 v"
    and r: "0 < r" and n: "0 < n"
  shows "quad_form (dot X (dot M (transpose_m X))) v = quad_form M (dot (transpose_m X) v)"
proof -
  have tX: "is_mat n r (transpose_m X)" by (rule transpose_m_shape [OF X r])
  have tv: "is_mat 1 r (transpose_m v)" by (rule transpose_m_shape [OF v r])
  have MtX: "is_mat n r (dot M (transpose_m X))" by (rule dot_shape [OF M tX n])
  define w where "w = dot (transpose_m X) v"
  have w: "is_mat n 1 w" unfolding w_def by (rule dot_shape [OF tX v r])
  have Mw: "is_mat n 1 (dot M w)" by (rule dot_shape [OF M w n])
  have "dot (dot X (dot M (transpose_m X))) v = dot X (dot (dot M (transpose_m X)) v)"
    by (rule dot_assoc [OF X MtX v n r])
  also have "dot (dot M (transpose_m X)) v = dot M w"
    unfolding w_def by (rule dot_assoc [OF M tX v n r])
  finally have 1: "dot (dot X (dot M (transpose_m X))) v = dot X (dot M w)" .
  have "transpose_m w = dot (transpose_m v) (transpose_m (transpose_m X))"
    unfolding w_def by (rule transpose_m_dot [OF tX v n r]) simp
  also have "\<dots> = dot (transpose_m v) X"
    by (simp add: transpose_m_transpose_m [OF X r n])
  finally have 2: "dot (transpose_m v) X = transpose_m w" by simp
  have "dot (transpose_m v) (dot X (dot M w)) = dot (dot (transpose_m v) X) (dot M w)"
    by (rule dot_assoc [OF tv X Mw r n, symmetric])
  with 1 2 show ?thesis by (simp add: quad_form_def w_def)
qed

lemma quad_form_zero:
  assumes M: "is_mat n n M" and n: "0 < n"
  shows "quad_form M (replicate n [0]) = 0"
proof -
  have v: "is_mat n 1 (replicate n [0])" by (simp add: is_mat_def)
  have tv: "is_mat 1 n (transpose_m (replicate n [0]))" by (rule transpose_m_shape [OF v n])
  have Mv: "is_mat n 1 (dot M (replicate n [0]))" by (rule dot_shape [OF M v n])
  have "quad_form M (replicate n [0]) 
     = (\<Sum>k<n. transpose_m (replicate n [0]) ! 0 ! k * dot M (replicate n [0]) ! k ! 0)"
    unfolding quad_form_def by (rule dot_nth [OF tv Mv n]) simp_all
  also have "\<dots> = (\<Sum>k<n. 0)"
    by (intro sum.cong refl) (simp add: transpose_m_nth [OF v])
  finally show ?thesis by simp
qed

lemma symmetric_congruence:
  assumes X: "is_mat r n X" and M: "is_mat n n M" and sym: "symmetric M"
    and r: "0 < r" and n: "0 < n"
  shows "symmetric (dot X (dot M (transpose_m X)))"
proof -
  have tX: "is_mat n r (transpose_m X)" by (rule transpose_m_shape [OF X r])
  have MtX: "is_mat n r (dot M (transpose_m X))" by (rule dot_shape [OF M tX n])
  have "transpose_m (dot X (dot M (transpose_m X)))
      = dot (transpose_m (dot M (transpose_m X))) (transpose_m X)"
    by (rule transpose_m_dot [OF X MtX r n r])
  also have "transpose_m (dot M (transpose_m X)) = dot (transpose_m (transpose_m X)) (transpose_m M)"
    by (rule transpose_m_dot [OF M tX n n r])
  also have "\<dots> = dot X M"
    using sym by (simp add: transpose_m_transpose_m [OF X r n] symmetric_def)
  also have "dot (dot X M) (transpose_m X) = dot X (dot M (transpose_m X))"
    by (rule dot_assoc [OF X M tX n n])
  finally show ?thesis by (simp add: symmetric_def)
qed

lemma symmetric_add:
  assumes A: "is_mat n n A" and B: "is_mat n n B" and "symmetric A" "symmetric B" and n: "0 < n"
  shows "symmetric (np_add A B)"
  using assms(3,4) transpose_m_np_zip [OF A B n, of "(+)"]
  by (simp add: symmetric_def np_add_def)

lemma psd_congruence:
  assumes X: "is_mat r n X" and M: "psd n M" and r: "0 < r" and n: "0 < n"
  shows "psd r (dot X (dot M (transpose_m X)))"
proof -
  from M have Mm: "is_mat n n M" and sym: "symmetric M"
    and pos: "\<And>v. is_mat n 1 v \<Longrightarrow> 0 \<le> quad_form M v" by (simp_all add: psd_def)
  have tX: "is_mat n r (transpose_m X)" by (rule transpose_m_shape [OF X r])
  have sh: "is_mat r r (dot X (dot M (transpose_m X)))"
    by (rule dot_shape [OF X dot_shape [OF Mm tX n] n])
  have "0 \<le> quad_form (dot X (dot M (transpose_m X))) v" if v: "is_mat r 1 v" for v
    unfolding quad_form_congruence [OF X Mm v r n]
    by (rule pos [OF dot_shape [OF tX v r]])
  with sh symmetric_congruence [OF X Mm sym r n] show ?thesis by (simp add: psd_def)
qed

lemma psd_add:
  assumes A: "psd n A" and B: "psd n B" and n: "0 < n"
  shows "psd n (np_add A B)"
  using assms
  by (auto simp: psd_def np_add_shape symmetric_add quad_form_add)

lemma pd_imp_psd:
  assumes "pd n M" and n: "0 < n"
  shows "psd n M"
proof -
  from assms have M: "is_mat n n M" and sym: "symmetric M"
    and pos: "\<And>v. is_mat n 1 v \<Longrightarrow> v \<noteq> replicate n [0] \<Longrightarrow> 0 < quad_form M v"
    by (simp_all add: pd_def)
  have "0 \<le> quad_form M v" if "is_mat n 1 v" for v
    using pos [OF that] quad_form_zero [OF M n] by (cases "v = replicate n [0]") auto
  with M sym show ?thesis by (simp add: psd_def)
qed

lemma psd_add_pd:
  assumes A: "psd n A" and B: "pd n B" and n: "0 < n"
  shows "pd n (np_add A B)"
proof -
  from A have Am: "is_mat n n A" and As: "symmetric A"
    and Ap: "\<And>v. is_mat n 1 v \<Longrightarrow> 0 \<le> quad_form A v" by (simp_all add: psd_def)
  from B have Bm: "is_mat n n B" and Bs: "symmetric B"
    and Bp: "\<And>v. is_mat n 1 v \<Longrightarrow> v \<noteq> replicate n [0] \<Longrightarrow> 0 < quad_form B v"
    by (simp_all add: pd_def)
  have "0 < quad_form (np_add A B) v" if v: "is_mat n 1 v" and nz: "v \<noteq> replicate n [0]" for v
    unfolding quad_form_add [OF Am Bm v n]
    using Ap [OF v] Bp [OF v nz] by simp
  with np_add_shape [OF Am Bm] symmetric_add [OF Am Bm As Bs n] show ?thesis
    by (simp add: pd_def)
qed


lemma quad_form_2:
  "quad_form [[a, b], [c, d]] [[p], [q]] = p * (a * p + b * q) + q * (c * p + d * q)"
  by (simp add: quad_form_def dot_def transpose_m_def upt_rec)

lemma transpose_m_2_2: "transpose_m [[a, b], [c, d]] = [[a, c], [b, d]]"
  by (simp add: transpose_m_def upt_rec)

lemma symmetric_2_2: "symmetric [[a, b], [c, d]] \<longleftrightarrow> b = c"
  unfolding symmetric_def transpose_m_2_2 by auto

lemma pd_2_inv:
  assumes "pd 2 S"
  shows "\<exists>S_inv. inv S = Inr S_inv"
proof -
  from assms have S2: "is_mat 2 2 S" and sym: "symmetric S"
    and pos: "\<And>v. is_mat 2 1 v \<Longrightarrow> v \<noteq> replicate 2 [0] \<Longrightarrow> 0 < quad_form S v"
    unfolding pd_def by blast+
  from S2 obtain a b c d where S: "S = [[a, b], [c, d]]" by (blast dest: is_mat_2_2)
  from sym have bc: "b = c" unfolding S symmetric_2_2 .
  have r: "replicate 2 [0::real] = [[0], [0]]" by (simp add: numeral_2_eq_2)
  have "a * d - b * c \<noteq> 0"
  proof
    assume z: "a * d - b * c = 0"
    show False
    proof (cases "a = 0")
      case True
      have "0 < quad_form S [[1], [0]]" by (rule pos) (simp_all add: r is_mat_def)
      with True show False by (simp add: S quad_form_2)
    next
      case False
      have "0 < quad_form S [[- b], [a]]" by (rule pos) (simp_all add: r is_mat_def False)
      moreover have "quad_form S [[- b], [a]] = a * (a * d - b * c)"
        by (simp add: S quad_form_2 bc algebra_simps)
      ultimately show False using z by simp
    qed
  qed
  then show ?thesis by (simp add: S inv_2_2)
qed

lemma joseph_form:
  assumes P1: "is_mat n n P1" and C0: "is_mat 2 n C0" and R0: "is_mat 2 2 R0"
    and Si: "is_mat 2 2 Si" and n: "0 < n"
    and inverse: "dot Si (np_add (dot C0 (dot P1 (transpose_m C0))) R0) = eye 2"
  defines "K \<equiv> dot P1 (dot (transpose_m C0) Si)"
  defines "X \<equiv> np_sub (eye n) (dot K C0)"
  shows "dot X P1 = np_add (dot X (dot P1 (transpose_m X))) (dot K (dot R0 (transpose_m K)))"
proof -
  have two: "0 < (2::nat)" by simp
  define T where "T = dot P1 (transpose_m C0)"
  have tC: "is_mat n 2 (transpose_m C0)" by (rule transpose_m_shape [OF C0 two])
  have T: "is_mat n 2 T" unfolding T_def by (rule dot_shape [OF P1 tC n])
  have CT: "is_mat 2 2 (dot C0 T)" by (rule dot_shape [OF C0 T n])
  have K_T: "K = dot T Si"
    unfolding K_def T_def by (rule dot_assoc [OF P1 tC Si n two, symmetric])
  have K: "is_mat n 2 K" unfolding K_T by (rule dot_shape [OF T Si two])
  have KC: "is_mat n n (dot K C0)" by (rule dot_shape [OF K C0 two])
  have X: "is_mat n n X" unfolding X_def by (rule np_sub_shape [OF eye_shape KC])
  have tK: "is_mat 2 n (transpose_m K)" by (rule transpose_m_shape [OF K n])
  have KCT: "is_mat n 2 (dot K (dot C0 T))" by (rule dot_shape [OF K CT two])
  have KR: "is_mat n 2 (dot K R0)" by (rule dot_shape [OF K R0 two])
  have "dot K (np_add (dot C0 T) R0) = dot T (dot Si (np_add (dot C0 T) R0))"
    unfolding K_T by (rule dot_assoc [OF T Si np_add_shape [OF CT R0] two two])
  also have "\<dots> = T"
    using inverse by (simp add: T_def dot_eye_right [OF T [unfolded T_def] two])
  finally have "np_add (dot K (dot C0 T)) (dot K R0) = T"
    by (simp add: dot_add_right [OF K CT R0 two])
  then have T_eq: "T = np_add (dot K (dot C0 T)) (dot K R0)" by simp
  have "dot X T = np_sub (dot (eye n) T) (dot (dot K C0) T)"
    unfolding X_def by (rule dot_sub_left [OF eye_shape KC T n])
  also have "\<dots> = np_sub T (dot K (dot C0 T))"
    by (simp add: dot_eye_left [OF T n] dot_assoc [OF K C0 T two n])
  also have "\<dots> = np_sub (np_add (dot K (dot C0 T)) (dot K R0)) (dot K (dot C0 T))"
    using T_eq by simp
  also have "\<dots> = dot K R0" by (rule np_sub_add_cancel [OF KCT KR])
  finally have XT: "dot X T = dot K R0" .
  have "transpose_m X = np_sub (transpose_m (eye n)) (transpose_m (dot K C0))"
    unfolding X_def np_sub_def by (rule transpose_m_np_zip [OF eye_shape KC n])
  also have "\<dots> = np_sub (eye n) (dot (transpose_m C0) (transpose_m K))"
    by (simp add: transpose_m_eye [OF n] transpose_m_dot [OF K C0 n two n])
  finally have tX: "transpose_m X = np_sub (eye n) (dot (transpose_m C0) (transpose_m K))" .
  have CK: "is_mat n n (dot (transpose_m C0) (transpose_m K))" by (rule dot_shape [OF tC tK two])
  have TK: "is_mat n n (dot T (transpose_m K))" by (rule dot_shape [OF T tK two])
  have "dot P1 (transpose_m X)
      = np_sub (dot P1 (eye n)) (dot P1 (dot (transpose_m C0) (transpose_m K)))"
    unfolding tX by (rule dot_sub_right [OF P1 eye_shape CK n])
  also have "\<dots> = np_sub P1 (dot T (transpose_m K))"
    by (simp add: dot_eye_right [OF P1 n] T_def dot_assoc [OF P1 tC tK n two])
  finally have "dot X (dot P1 (transpose_m X)) = dot X (np_sub P1 (dot T (transpose_m K)))"
    by simp
  also have "\<dots> = np_sub (dot X P1) (dot X (dot T (transpose_m K)))"
    by (rule dot_sub_right [OF X P1 TK n])
  also have "dot X (dot T (transpose_m K)) = dot (dot X T) (transpose_m K)"
    by (rule dot_assoc [OF X T tK n two, symmetric])
  also have "\<dots> = dot K (dot R0 (transpose_m K))"
    unfolding XT by (rule dot_assoc [OF K R0 tK two two])
  finally have "dot X (dot P1 (transpose_m X))
      = np_sub (dot X P1) (dot K (dot R0 (transpose_m K)))" .
  then show ?thesis
    by (simp add: np_add_sub_cancel [OF dot_shape [OF X P1 n]
          dot_shape [OF K dot_shape [OF R0 tK two] two]])
qed

lemma kalman_block_psd:
  assumes sh: "block_shapes n k x0 P0 A B u C0 z Q0 R0"
    and P0: "psd n P0" and Q0: "psd n Q0" and R0: "pd 2 R0"
  shows "\<exists>xf Pf. snd (kalman_block n x0 P0 A B u C0 z Q0 R0) = Inr (xf, Pf) \<and> psd n Pf"
proof -
  have two: "0 < (2::nat)" by simp
  from sh have n: "0 < n" and A: "is_mat n n A" and C0: "is_mat 2 n C0"
    and R0m: "is_mat 2 2 R0" by (simp_all add: block_shapes_def)
  define P1 where "P1 = np_add (dot A (dot P0 (transpose_m A))) Q0"
  define S where "S = np_add (dot C0 (dot P1 (transpose_m C0))) R0"
  have P1: "psd n P1"
    unfolding P1_def by (rule psd_add [OF psd_congruence [OF A P0 n n] Q0 n])
  then have P1m: "is_mat n n P1" by (simp add: psd_def)
  have "pd 2 S"
    unfolding S_def by (rule psd_add_pd [OF psd_congruence [OF C0 P1 two n] R0 two])
  from pd_2_inv [OF this] obtain Si where Si: "inv S = Inr Si" ..
  from inv_Inr [OF Si] have Sim: "is_mat 2 2 Si" and "is_inverse S Si" and "is_mat 2 2 S"
    by simp_all
  then have inverse: "dot Si S = eye 2" by (simp add: is_inverse_def is_mat_length)
  define K where "K = dot P1 (dot (transpose_m C0) Si)"
  define X where "X = np_sub (eye n) (dot K C0)"
  have K: "is_mat n 2 K"
    unfolding K_def
    by (rule dot_shape [OF P1m dot_shape [OF transpose_m_shape [OF C0 two] Sim two] n])
  have X: "is_mat n n X"
    unfolding X_def by (rule np_sub_shape [OF eye_shape dot_shape [OF K C0 two]])
  have "dot X P1 = np_add (dot X (dot P1 (transpose_m X))) (dot K (dot R0 (transpose_m K)))"
    unfolding X_def K_def
    by (rule joseph_form [OF P1m C0 R0m Sim n inverse [unfolded S_def]])
  moreover have "psd n (dot X (dot P1 (transpose_m X)))"
    by (rule psd_congruence [OF X P1 n n])
  moreover have "psd n (dot K (dot R0 (transpose_m K)))"
    by (rule psd_congruence [OF K pd_imp_psd [OF R0 two] n two])
  ultimately have "psd n (dot X P1)" by (simp add: psd_add n)
  moreover have "snd (kalman_block n x0 P0 A B u C0 z Q0 R0)
      = Inr (np_add (np_add (dot A x0) (dot B u)) (dot K (np_sub z (dot C0 (np_add (dot A x0) (dot B u))))),
             dot X P1)"
    using Si by (simp add: kalman_block_def Let_def P1_def S_def K_def X_def)
  ultimately show ?thesis by blast
qed

section \<open>In exact arithmetic a step returns and keeps the filter well-formed\<close>


lemma update_6dof_psd:
  assumes wf: "wf_6dof self"
    and P0: "psd 4 (P self)" and Q0: "psd 4 (Q self)" and R0: "pd 2 (R self)"
  shows "\<exists>roll pitch self'.
           update_6dof self (g0 # g1 # g2 # grest) (a0 # a1 # a2 # arest) dt
             = (Inr (roll, pitch), self') \<and>
           wf_6dof self' \<and> psd 4 (P self') \<and> same_config_6dof self' self"
proof -
  note sh = block_shapes_6dof' [OF wf, of dt g0 g1 g2 a0 a1 a2]
  obtain P1 r where blk:
    "kalman_block 4 (x self) (P self) (A_6dof dt) [[dt, 0], [0, 0], [0, dt], [0, 0]]
       (u_6dof self g0 g1 g2) (C self) (z_6dof self a0 a1 a2) (Q self) (R self) = (P1, r)"
    by (cases "kalman_block 4 (x self) (P self) (A_6dof dt) [[dt, 0], [0, 0], [0, dt], [0, 0]]
       (u_6dof self g0 g1 g2) (C self) (z_6dof self a0 a1 a2) (Q self) (R self)")
  from kalman_block_psd [OF sh P0 Q0 R0] blk obtain xf Pf where r: "r = Inr (xf, Pf)"
    and Pf: "psd 4 Pf" by auto
  from blk r have snd: "snd (kalman_block 4 (x self) (P self) (A_6dof dt)
       [[dt, 0], [0, 0], [0, dt], [0, 0]]
       (u_6dof self g0 g1 g2) (C self) (z_6dof self a0 a1 a2) (Q self) (R self)) = Inr (xf, Pf)"
    by simp
  note rs = kalman_block_result_shapes [OF sh snd]
  have "update_6dof self (g0 # g1 # g2 # grest) (a0 # a1 # a2 # arest) dt =
      (Inr (degrees (xf ! 0 ! 0), degrees (xf ! 2 ! 0)),
       self\<lparr>acc_x := [acc_x self ! 1, a0], acc_y := [acc_y self ! 1, a1],
            acc_z := [acc_z self ! 1, a2], x := xf, P := Pf\<rparr>)"
    using update_6dof_wf_block [OF wf, of g0 g1 g2 grest a0 a1 a2 arest dt]
    unfolding blk r by (simp add: item_in_range [OF rs(1)])
  moreover have "wf_6dof (self\<lparr>acc_x := [acc_x self ! 1, a0], acc_y := [acc_y self ! 1, a1],
            acc_z := [acc_z self ! 1, a2], x := xf, P := Pf\<rparr>)"
    using wf rs by (simp add: wf_6dof_def)
  ultimately show ?thesis using Pf by (simp add: same_config_6dof_def)
qed

lemma sq_nonneg: "0 \<le> d \<Longrightarrow> 0 \<le> p * (d * (p::real))"
  by (metis mult.left_commute mult_nonneg_nonneg zero_le_square)

lemma sq_pos: "0 < d \<Longrightarrow> p \<noteq> 0 \<Longrightarrow> 0 < p * (d * (p::real))"
  by (metis mult.left_commute mult_pos_pos not_real_square_gt_zero)


lemma pd_diag_2:
  assumes "0 < d0" "0 < d1"
  shows "pd 2 [[d0, 0], [0, d1]]"
proof -
  have "0 < quad_form [[d0, 0], [0, d1]] v" if "is_mat 2 1 v" "v \<noteq> replicate 2 [0]" for v
  proof -
    from that(1) obtain p q where v: "v = [[p], [q]]" by (blast dest: is_mat_2_1)
    with that(2) have "p \<noteq> 0 \<or> q \<noteq> 0" by (auto simp: numeral_2_eq_2)
    then show ?thesis
    proof
      assume "p \<noteq> 0"
      then have "0 < p * (d0 * p)" "0 \<le> q * (d1 * q)" using assms by (simp_all add: sq_pos sq_nonneg)
      then show ?thesis by (simp add: v quad_form_2)
    next
      assume "q \<noteq> 0"
      then have "0 \<le> p * (d0 * p)" "0 < q * (d1 * q)" using assms by (simp_all add: sq_pos sq_nonneg)
      then show ?thesis by (simp add: v quad_form_2)
    qed
  qed
  then show ?thesis unfolding pd_def by (simp add: symmetric_2_2)
qed

lemma is_mat_4_1: "is_mat 4 1 M \<Longrightarrow> \<exists>a b c d. M = [[a], [b], [c], [d]]"
  by (auto simp: is_mat_def length_Suc_conv eval_nat_numeral)

lemma psd_diag_4:
  assumes "0 \<le> d0" "0 \<le> d1" "0 \<le> d2" "0 \<le> d3"
  shows "psd 4 [[d0, 0, 0, 0], [0, d1, 0, 0], [0, 0, d2, 0], [0, 0, 0, d3]]"
proof -
  have "0 \<le> quad_form [[d0, 0, 0, 0], [0, d1, 0, 0], [0, 0, d2, 0], [0, 0, 0, d3]] v"
    if "is_mat 4 1 v" for v
  proof -
    from that obtain p q r s where "v = [[p], [q], [r], [s]]" by (blast dest: is_mat_4_1)
    then show ?thesis using assms
      by (simp add: quad_form_def dot_def transpose_m_def upt_rec sq_nonneg)
  qed
  moreover have "symmetric [[d0, 0, 0, 0], [0, d1, 0, 0], [0, 0, d2, 0], [0, 0, 0, d3]]"
    by (simp add: symmetric_def transpose_m_def upt_rec)
  ultimately show ?thesis by (simp add: psd_def is_mat_def)
qed


lemma init_6dof_wf: "wf_6dof init_6dof" "psd 4 (P init_6dof)" "psd 4 (Q init_6dof)" "pd 2 (R init_6dof)"
  by (simp_all add: init_eval Let_def np_scale_def wf_6dof_def is_mat_def psd_diag_4 pd_diag_2
       transpose_m_def upt_rec)

section \<open>In exact arithmetic the loops get through a well-formed dataset\<close>

lemma for_6dof_total:
  assumes "wf_6dof self" "psd 4 (P self)" "psd 4 (Q self)" "pd 2 (R self)"
    and "list_all (rows_ok_6dof dataset) idx"
  shows "\<exists>rolls pitches self'. for_6dof self dataset idx ra pa = (Inr (rolls, pitches), self')"
  using assms
proof (induction idx arbitrary: self ra pa)
  case Nil
  show ?case by simp
next
  case (Cons i rest)
  from Cons.prems(5) have ok: "rows_ok_6dof dataset i"
    and rest: "list_all (rows_ok_6dof dataset) rest" by simp_all
  from update_6dof_psd [OF Cons.prems(1-4)]
  obtain roll pitch self' where
    u: "update_6dof self [dataset ! 1 ! i, dataset ! 2 ! i, dataset ! 3 ! i]
          [dataset ! 4 ! i, dataset ! 5 ! i, dataset ! 6 ! i]
          (dataset ! 0 ! i - dataset ! 0 ! (i - 1)) = (Inr (roll, pitch), self')"
    and inv: "wf_6dof self'" "psd 4 (P self')" "same_config_6dof self' self" by blast
  from inv(3) Cons.prems(3,4) have "psd 4 (Q self')" "pd 2 (R self')"
    by (simp_all add: same_config_6dof_def)
  from Cons.IH [OF inv(1,2) this rest]
  obtain rolls pitches self'' where
    "for_6dof self' dataset rest (ra @ [roll]) (pa @ [pitch]) = (Inr (rolls, pitches), self'')"
    by blast
  with ok u show ?case by (simp add: rows_ok_6dof_def Let_def)
qed

lemma reset_6dof_wf:
  assumes "is_mat 2 4 (C self)" "psd 4 (Q self)" "pd 2 (R self)"
  shows "wf_6dof (reset_6dof self)" "psd 4 (P (reset_6dof self))" "psd 4 (Q (reset_6dof self))"
    "pd 2 (R (reset_6dof self))"
  using assms psd_diag_4 [of 1 1 1 1]
  by (simp_all add: reset_6dof_def wf_6dof_def psd_def pd_def is_mat_def transpose_m_def upt_rec)

section \<open>The step against the specification\<close>



section \<open>Batch analysis: the loop sample by sample\<close>

lemma for_v_append:
  "for_v self dataset (xs @ ys) acc =
     (case for_v self dataset xs acc of
        (Inl e, s) \<Rightarrow> (Inl e, s)
      | (Inr mid, s) \<Rightarrow> for_v s dataset ys mid)"
  by (induction xs arbitrary: self acc) (auto simp: Let_def split: prod.splits sum.splits)

lemma for_6dof_append:
  "for_6dof self dataset (xs @ ys) ra pa =
     (case for_6dof self dataset xs ra pa of
        (Inl e, s) \<Rightarrow> (Inl e, s)
      | (Inr (rolls, pitches), s) \<Rightarrow> for_6dof s dataset ys rolls pitches)"
  by (induction xs arbitrary: self ra pa) (auto simp: Let_def split: prod.splits sum.splits)

lemma take_snoc_prefix: "take (Suc (length acc)) out = acc @ [v] \<Longrightarrow> take (length acc) out = acc"
  by (metis append_eq_conv_conj butlast_snoc butlast_take diff_Suc_1 length_append_singleton
        length_take min.absorb2 nat_le_linear take_all)

lemma for_v_take:
  "for_v self dataset idx acc = (Inr out, self') \<Longrightarrow> take (length acc) out = acc"
proof (induction idx arbitrary: self acc)
  case Nil
  then show ?case by simp
next
  case (Cons i rest)
  from Cons.prems obtain speed s where
    "for_v s dataset rest (acc @ [speed]) = (Inr out, self')"
    by (auto simp: Let_def split: if_splits prod.splits sum.splits)
  from Cons.IH [OF this] show ?case by (simp add: take_snoc_prefix)
qed

lemma for_6dof_take:
  "for_6dof self dataset idx ra pa = (Inr (rolls, pitches), self') \<Longrightarrow>
   take (length ra) rolls = ra \<and> take (length pa) pitches = pa"
proof (induction idx arbitrary: self ra pa)
  case Nil
  then show ?case by simp
next
  case (Cons i rest)
  from Cons.prems obtain roll pitch s where
    "for_6dof s dataset rest (ra @ [roll]) (pa @ [pitch]) = (Inr (rolls, pitches), self')"
    by (auto simp: Let_def split: if_splits prod.splits sum.splits)
  from Cons.IH [OF this] show ?case by (simp add: take_snoc_prefix)
qed

lemma nth_snoc_prefix: "take (Suc (length acc)) out = acc @ [v] \<Longrightarrow> out ! length acc = v"
  by (metis lessI nth_append_length nth_take)

lemma for_v_sample:
  assumes "for_v self dataset (xs @ i # ys) acc = (Inr out, self')"
  shows "\<exists>s s'. for_v self dataset xs acc = (Inr (take (length acc + length xs) out), s) \<and>
           update_v s [dataset ! 1 ! i, dataset ! 2 ! i, dataset ! 3 ! i] (dataset ! 4 ! i)
             (dataset ! 5 ! i) (dataset ! 0 ! i - dataset ! 0 ! (i - 1))
             = (Inr (out ! (length acc + length xs)), s')"
proof -
  from assms obtain mid s where pre: "for_v self dataset xs acc = (Inr mid, s)"
    and post: "for_v s dataset (i # ys) mid = (Inr out, self')"
    by (auto simp: for_v_append split: prod.splits sum.splits)
  from post obtain speed s' where
    u: "update_v s [dataset ! 1 ! i, dataset ! 2 ! i, dataset ! 3 ! i] (dataset ! 4 ! i)
             (dataset ! 5 ! i) (dataset ! 0 ! i - dataset ! 0 ! (i - 1)) = (Inr speed, s')"
    and rest: "for_v s' dataset ys (mid @ [speed]) = (Inr out, self')"
    by (auto simp: Let_def split: if_splits prod.splits sum.splits)
  from for_v_take [OF rest] have t: "take (Suc (length mid)) out = mid @ [speed]" by simp
  from for_v_length [OF pre] have l: "length mid = length acc + length xs" .
  from take_snoc_prefix [OF t] nth_snoc_prefix [OF t] pre u l show ?thesis by auto
qed

lemma for_6dof_sample:
  assumes "for_6dof self dataset (xs @ i # ys) ra pa = (Inr (rolls, pitches), self')"
    and "length pa = length ra"
  shows "\<exists>s s'. for_6dof self dataset xs ra pa
             = (Inr (take (length ra + length xs) rolls, take (length ra + length xs) pitches), s) \<and>
           update_6dof s [dataset ! 1 ! i, dataset ! 2 ! i, dataset ! 3 ! i]
             [dataset ! 4 ! i, dataset ! 5 ! i, dataset ! 6 ! i]
             (dataset ! 0 ! i - dataset ! 0 ! (i - 1))
             = (Inr (rolls ! (length ra + length xs), pitches ! (length ra + length xs)), s')"
proof -
  from assms(1) obtain mr mp s where pre: "for_6dof self dataset xs ra pa = (Inr (mr, mp), s)"
    and post: "for_6dof s dataset (i # ys) mr mp = (Inr (rolls, pitches), self')"
    by (auto simp: for_6dof_append split: prod.splits sum.splits)
  from post obtain roll pitch s' where
    u: "update_6dof s [dataset ! 1 ! i, dataset ! 2 ! i, dataset ! 3 ! i]
             [dataset ! 4 ! i, dataset ! 5 ! i, dataset ! 6 ! i]
             (dataset ! 0 ! i - dataset ! 0 ! (i - 1)) = (Inr (roll, pitch), s')"
    and rest: "for_6dof s' dataset ys (mr @ [roll]) (mp @ [pitch]) = (Inr (rolls, pitches), self')"
    by (auto simp: Let_def split: if_splits prod.splits sum.splits)
  from for_6dof_take [OF rest] have t: "take (Suc (length mr)) rolls = mr @ [roll]"
    "take (Suc (length mp)) pitches = mp @ [pitch]" by simp_all
  from for_6dof_length [OF pre] assms(2) have l: "length mr = length ra + length xs"
    "length mp = length ra + length xs" by simp_all
  from take_snoc_prefix [OF t(1)] nth_snoc_prefix [OF t(1)] take_snoc_prefix [OF t(2)]
    nth_snoc_prefix [OF t(2)] pre u l show ?thesis by auto
qed

lemma upt_split: "0 < i \<Longrightarrow> i < n \<Longrightarrow> [1..<n] = [1..<i] @ i # [Suc i..<n]"
proof -
  assume i: "0 < i" "i < n"
  then have "[1..<n] = [1..<i] @ [i..<n]"
    using upt_add_eq_append [of 1 i "n - i"] by simp
  moreover from i have "[i..<n] = i # [Suc i..<n]" by (simp add: upt_conv_Cons)
  ultimately show ?thesis by simp
qed

lemma update_6dof_degrees:
  "update_6dof self g a dt = (Inr (roll, pitch), self') \<Longrightarrow>
   roll = degrees (x self' ! 0 ! 0) \<and> pitch = degrees (x self' ! 2 ! 0)"
  by (auto simp: update_6dof_def Let_def item_def split: prod.splits sum.splits list.splits if_splits)

lemma analyze_dataset_v_samples:
  assumes ne: "dataset ! 0 \<noteq> []"
    and ok: "fst (analyze_dataset_v self dataset) = Inr speed_arr"
  shows "length speed_arr = length (dataset ! 0)" "speed_arr ! 0 = 0"
    "0 < i \<Longrightarrow> i < length (dataset ! 0) \<Longrightarrow>
      \<exists>s s'. for_v (reset_v self) dataset [1..<i] [0] = (Inr (take i speed_arr), s) \<and>
              update_v s [dataset ! 1 ! i, dataset ! 2 ! i, dataset ! 3 ! i] (dataset ! 4 ! i)
                (dataset ! 5 ! i) (dataset ! 0 ! i - dataset ! 0 ! (i - 1))
                = (Inr (speed_arr ! i), s')"
proof -
  from ok obtain self' where loop:
    "for_v (reset_v self) dataset [1..<length (dataset ! 0)] [0] = (Inr speed_arr, self')"
    by (cases "for_v (reset_v self) dataset [1..<length (dataset ! 0)] [0]")
       (auto simp: analyze_dataset_v_def Let_def split: if_splits)
  from for_v_length [OF loop] have "length speed_arr = 1 + (length (dataset ! 0) - 1)"
    by simp
  with ne show "length speed_arr = length (dataset ! 0)"
    by (cases "dataset ! 0") simp_all
  from for_v_take [OF loop] have "take 1 speed_arr = [0]" by simp
  then show "speed_arr ! 0 = 0"
    by (metis less_numeral_extra(1) nth_Cons_0 nth_take)
  assume i: "0 < i" "i < length (dataset ! 0)"
  have "length [0::real] + length [1..<i] = i" using i by simp
  with for_v_sample [OF loop [unfolded upt_split [OF i]]]
  show "\<exists>s s'. for_v (reset_v self) dataset [1..<i] [0] = (Inr (take i speed_arr), s) \<and>
              update_v s [dataset ! 1 ! i, dataset ! 2 ! i, dataset ! 3 ! i] (dataset ! 4 ! i)
                (dataset ! 5 ! i) (dataset ! 0 ! i - dataset ! 0 ! (i - 1))
                = (Inr (speed_arr ! i), s')"
    by simp
qed

lemma analyze_dataset_6dof_returns:
  assumes ok: "fst (analyze_dataset_6dof spline self dataset) = Inr (roll_s, pitch_s)"
  shows "\<exists>roll_arr pitch_arr self' roll_f pitch_f.
           for_6dof (reset_6dof self) dataset [1..<length (dataset ! 0)] [0] [0]
             = (Inr (roll_arr, pitch_arr), self') \<and>
           spline (dataset ! 0) (zero roll_arr) 1 = Inr roll_f \<and>
           spline (dataset ! 0) (zero pitch_arr) 1 = Inr pitch_f \<and>
           roll_s = map roll_f (dataset ! 0) \<and> pitch_s = map pitch_f (dataset ! 0) \<and>
           7 \<le> length dataset \<and> 4 \<le> length (dataset ! 0)"
proof -
  from ok obtain ra pa s' where loop:
    "for_6dof (reset_6dof self) dataset [1..<length (dataset ! 0)] [0] [0]
       = (Inr (ra, pa), s')"
    by (auto simp: analyze_dataset_6dof_def Let_def split: if_splits sum.splits prod.splits)
  from ok have len: "7 \<le> length dataset"
    by (auto simp: analyze_dataset_6dof_def split: if_splits)
  with ok loop have sm: "smooth spline (zero ra) (dataset ! 0) 1 = Inr roll_s"
    "smooth spline (zero pa) (dataset ! 0) 1 = Inr pitch_s"
    by (auto simp: analyze_dataset_6dof_def Let_def split: if_splits sum.splits)
  from sm(1) obtain f where "spline (dataset ! 0) (zero ra) 1 = Inr f"
    "roll_s = map f (dataset ! 0)" "4 \<le> length (dataset ! 0)"
    by (auto simp: smooth_def split: if_splits sum.splits)
  moreover from sm(2) obtain g where "spline (dataset ! 0) (zero pa) 1 = Inr g"
    "pitch_s = map g (dataset ! 0)"
    by (auto simp: smooth_def split: if_splits sum.splits)
  ultimately show ?thesis using loop len by blast
qed

lemma for_6dof_samples:
  assumes loop: "for_6dof self dataset [1..<n] [0] [0] = (Inr (roll_arr, pitch_arr), self')"
  shows "length roll_arr = Suc (n - 1)" "length pitch_arr = Suc (n - 1)"
    "roll_arr ! 0 = 0" "pitch_arr ! 0 = 0"
    "0 < i \<Longrightarrow> i < n \<Longrightarrow>
      \<exists>s s'. for_6dof self dataset [1..<i] [0] [0]
                = (Inr (take i roll_arr, take i pitch_arr), s) \<and>
              update_6dof s [dataset ! 1 ! i, dataset ! 2 ! i, dataset ! 3 ! i]
                [dataset ! 4 ! i, dataset ! 5 ! i, dataset ! 6 ! i]
                (dataset ! 0 ! i - dataset ! 0 ! (i - 1))
                = (Inr (roll_arr ! i, pitch_arr ! i), s') \<and>
              roll_arr ! i = degrees (x s' ! 0 ! 0) \<and> pitch_arr ! i = degrees (x s' ! 2 ! 0)"
proof -
  from for_6dof_length [OF loop] show "length roll_arr = Suc (n - 1)"
    "length pitch_arr = Suc (n - 1)" by simp_all
  from for_6dof_take [OF loop] have "take 1 roll_arr = [0]" "take 1 pitch_arr = [0]"
    by simp_all
  then show "roll_arr ! 0 = 0" "pitch_arr ! 0 = 0"
    by (metis less_numeral_extra(1) nth_Cons_0 nth_take)+
  assume i: "0 < i" "i < n"
  have "length [0::real] + length [1..<i] = i" using i by simp
  with for_6dof_sample [OF loop [unfolded upt_split [OF i]]]
  obtain s s' where
    a: "for_6dof self dataset [1..<i] [0] [0] = (Inr (take i roll_arr, take i pitch_arr), s)"
    and b: "update_6dof s [dataset ! 1 ! i, dataset ! 2 ! i, dataset ! 3 ! i]
                [dataset ! 4 ! i, dataset ! 5 ! i, dataset ! 6 ! i]
                (dataset ! 0 ! i - dataset ! 0 ! (i - 1))
                = (Inr (roll_arr ! i, pitch_arr ! i), s')"
    by auto
  from a b update_6dof_degrees [OF b]
  show "\<exists>s s'. for_6dof self dataset [1..<i] [0] [0]
                = (Inr (take i roll_arr, take i pitch_arr), s) \<and>
              update_6dof s [dataset ! 1 ! i, dataset ! 2 ! i, dataset ! 3 ! i]
                [dataset ! 4 ! i, dataset ! 5 ! i, dataset ! 6 ! i]
                (dataset ! 0 ! i - dataset ! 0 ! (i - 1))
                = (Inr (roll_arr ! i, pitch_arr ! i), s') \<and>
              roll_arr ! i = degrees (x s' ! 0 ! 0) \<and> pitch_arr ! i = degrees (x s' ! 2 ! 0)"
    by blast
qed

section \<open>Two runs of the batch analysis\<close>

text \<open>
  The loop of the orientation filter on four samples one time unit apart, at rest with the
  z axis of the accelerometer reading 1, and the loop of the velocity filter on two samples
  one time unit and one position unit apart, both from the constructed filters, evaluated.
\<close>

lemma for_6dof_four_samples:
  "fst (for_6dof (reset_6dof init_6dof)
          [[0, 1, 2, 3], [0, 0, 0, 0], [0, 0, 0, 0], [0, 0, 0, 0],
           [0, 0, 0, 0], [0, 0, 0, 0], [1, 1, 1, 1]] [1..<4] [0] [0]) =
     Inr ([0, 180000090 / 2001001, 45360225180090 / 503503002001,
           36144228156102030 / 401335868334467],
          [0, 0, 0, 0])"
  by (simp add: update_6dof_def accel_means_6dof_def init_eval np_eval arctan2_def degrees_def)

lemma for_v_two_samples:
  "fst (for_v (reset_v init_v) [[0, 1], [0, 0], [0, 0], [0, 0], [0, 0], [0, 1]] [1..<2] [0]) =
     Inr [0, 101130011 / 102131111]"
  by (simp add: update_v_def accel_means_v_def init_eval np_eval)

lemma for_6dof_200_samples:
  "\<exists>roll_arr pitch_arr self'.
     for_6dof (reset_6dof init_6dof)
       [map real [0..<200], replicate 200 0, replicate 200 0, replicate 200 0,
        replicate 200 0, replicate 200 0, replicate 200 1] [1..<200] [0] [0]
     = (Inr (roll_arr, pitch_arr), self')"
proof -
  have co: "is_mat 2 4 (C init_6dof)" using init_6dof_wf(1) by (simp add: wf_6dof_def)
  have "list_all (rows_ok_6dof [map real [0..<200], replicate 200 0, replicate 200 0,
        replicate 200 0, replicate 200 0, replicate 200 0, replicate 200 1]) [1..<200]"
    by (simp add: list_all_iff rows_ok_6dof_def)
  from for_6dof_total [OF reset_6dof_wf [OF co init_6dof_wf(3,4)] this] show ?thesis .
qed

section \<open>Batch analysis: the results\<close>

text \<open>
  C8, as the code has it. When \<^verbatim>\<open>analyze_dataset\<close> returns, on a dataset whose time
  sequence is not empty, the result has one entry per sample, in the order of the samples.
  For the velocity filter it is one sequence of the length of the time sequence: entry 0
  is 0 and entry \<open>i\<close> is the speed that \<^verbatim>\<open>update\<close> returned for sample \<open>i\<close>, called on the
  filter that the samples before \<open>i\<close> left. For the orientation filter the loop gives a
  roll and a pitch sequence of the length of the time sequence in the same way, entry 0
  being 0 and entry \<open>i\<close> the roll and the pitch of the state after sample \<open>i\<close> in degrees; the
  two sequences returned have the length of the time sequence as well, entry \<open>i\<close> being the
  spline fitted to the roll (pitch) sequence after \<^verbatim>\<open>zero\<close>, at timestamp \<open>i\<close>.
  \<^verbatim>\<open>analyze_dataset\<close> does not return on every dataset that is not empty; the velocity
  filter's returns \<open>[0]\<close> on every dataset of six channels and one sample.
\<close>

theorem analyze_dataset_lengths:
  "(dataset ! 0 \<noteq> [] \<longrightarrow> fst (analyze_dataset_v self dataset) = Inr speed_arr \<longrightarrow>
      length speed_arr = length (dataset ! 0) \<and> speed_arr ! 0 = 0 \<and>
      (\<forall>i. 0 < i \<longrightarrow> i < length (dataset ! 0) \<longrightarrow>
         (\<exists>s s'. for_v (reset_v self) dataset [1..<i] [0] = (Inr (take i speed_arr), s) \<and>
            update_v s [dataset ! 1 ! i, dataset ! 2 ! i, dataset ! 3 ! i] (dataset ! 4 ! i)
              (dataset ! 5 ! i) (dataset ! 0 ! i - dataset ! 0 ! (i - 1))
              = (Inr (speed_arr ! i), s')))) \<and>
   (fst (analyze_dataset_6dof spline selfo dataseto) = Inr (roll_s, pitch_s) \<longrightarrow>
      dataseto ! 0 \<noteq> [] \<and>
      length roll_s = length (dataseto ! 0) \<and> length pitch_s = length (dataseto ! 0) \<and>
      (\<exists>roll_arr pitch_arr selfo' roll_f pitch_f.
         for_6dof (reset_6dof selfo) dataseto [1..<length (dataseto ! 0)] [0] [0]
           = (Inr (roll_arr, pitch_arr), selfo') \<and>
         length roll_arr = length (dataseto ! 0) \<and> length pitch_arr = length (dataseto ! 0) \<and>
         roll_arr ! 0 = 0 \<and> pitch_arr ! 0 = 0 \<and>
         (\<forall>i. 0 < i \<longrightarrow> i < length (dataseto ! 0) \<longrightarrow>
            (\<exists>s s'. for_6dof (reset_6dof selfo) dataseto [1..<i] [0] [0]
                      = (Inr (take i roll_arr, take i pitch_arr), s) \<and>
               update_6dof s [dataseto ! 1 ! i, dataseto ! 2 ! i, dataseto ! 3 ! i]
                 [dataseto ! 4 ! i, dataseto ! 5 ! i, dataseto ! 6 ! i]
                 (dataseto ! 0 ! i - dataseto ! 0 ! (i - 1))
                 = (Inr (roll_arr ! i, pitch_arr ! i), s') \<and>
               roll_arr ! i = degrees (x s' ! 0 ! 0) \<and>
               pitch_arr ! i = degrees (x s' ! 2 ! 0))) \<and>
         spline (dataseto ! 0) (zero roll_arr) 1 = Inr roll_f \<and>
         spline (dataseto ! 0) (zero pitch_arr) 1 = Inr pitch_f \<and>
         (\<forall>i. i < length (dataseto ! 0) \<longrightarrow>
            roll_s ! i = roll_f (dataseto ! 0 ! i) \<and>
            pitch_s ! i = pitch_f (dataseto ! 0 ! i)))) \<and>
   (6 \<le> length datasetT \<longrightarrow> length (datasetT ! 0) = 1 \<longrightarrow>
      analyze_dataset_v selfT datasetT = (Inr [0], reset_v selfT))"
proof (intro conjI impI)
  assume ne: "dataset ! 0 \<noteq> []"
    and ok: "fst (analyze_dataset_v self dataset) = Inr speed_arr"
  note r = analyze_dataset_v_samples [OF ne ok]
  show "length speed_arr = length (dataset ! 0)" by (rule r(1))
  show "speed_arr ! 0 = 0" by (rule r(2))
  show "\<forall>i. 0 < i \<longrightarrow> i < length (dataset ! 0) \<longrightarrow>
         (\<exists>s s'. for_v (reset_v self) dataset [1..<i] [0] = (Inr (take i speed_arr), s) \<and>
            update_v s [dataset ! 1 ! i, dataset ! 2 ! i, dataset ! 3 ! i] (dataset ! 4 ! i)
              (dataset ! 5 ! i) (dataset ! 0 ! i - dataset ! 0 ! (i - 1))
              = (Inr (speed_arr ! i), s'))"
    using r(3) by blast
next
  assume ok: "fst (analyze_dataset_6dof spline selfo dataseto) = Inr (roll_s, pitch_s)"
  from analyze_dataset_6dof_returns [OF ok] obtain roll_arr pitch_arr selfo' roll_f pitch_f
    where loop: "for_6dof (reset_6dof selfo) dataseto [1..<length (dataseto ! 0)] [0] [0]
             = (Inr (roll_arr, pitch_arr), selfo')"
      and sp: "spline (dataseto ! 0) (zero roll_arr) 1 = Inr roll_f"
        "spline (dataseto ! 0) (zero pitch_arr) 1 = Inr pitch_f"
      and res: "roll_s = map roll_f (dataseto ! 0)" "pitch_s = map pitch_f (dataseto ! 0)"
      and len: "4 \<le> length (dataseto ! 0)"
    by blast
  note r = for_6dof_samples [OF loop]
  from len show "dataseto ! 0 \<noteq> []" by auto
  from res show "length roll_s = length (dataseto ! 0)" "length pitch_s = length (dataseto ! 0)"
    by simp_all
  from len r(1,2) have l: "length roll_arr = length (dataseto ! 0)"
    "length pitch_arr = length (dataseto ! 0)" by simp_all
  have ev: "\<forall>i. i < length (dataseto ! 0) \<longrightarrow>
            roll_s ! i = roll_f (dataseto ! 0 ! i) \<and> pitch_s ! i = pitch_f (dataseto ! 0 ! i)"
    using res by simp
  have each: "\<forall>i. 0 < i \<longrightarrow> i < length (dataseto ! 0) \<longrightarrow>
            (\<exists>s s'. for_6dof (reset_6dof selfo) dataseto [1..<i] [0] [0]
                      = (Inr (take i roll_arr, take i pitch_arr), s) \<and>
               update_6dof s [dataseto ! 1 ! i, dataseto ! 2 ! i, dataseto ! 3 ! i]
                 [dataseto ! 4 ! i, dataseto ! 5 ! i, dataseto ! 6 ! i]
                 (dataseto ! 0 ! i - dataseto ! 0 ! (i - 1))
                 = (Inr (roll_arr ! i, pitch_arr ! i), s') \<and>
               roll_arr ! i = degrees (x s' ! 0 ! 0) \<and>
               pitch_arr ! i = degrees (x s' ! 2 ! 0))"
    using r(5) by blast
  from loop l r(3,4) each sp ev
  show "\<exists>roll_arr pitch_arr selfo' roll_f pitch_f.
         for_6dof (reset_6dof selfo) dataseto [1..<length (dataseto ! 0)] [0] [0]
           = (Inr (roll_arr, pitch_arr), selfo') \<and>
         length roll_arr = length (dataseto ! 0) \<and> length pitch_arr = length (dataseto ! 0) \<and>
         roll_arr ! 0 = 0 \<and> pitch_arr ! 0 = 0 \<and>
         (\<forall>i. 0 < i \<longrightarrow> i < length (dataseto ! 0) \<longrightarrow>
            (\<exists>s s'. for_6dof (reset_6dof selfo) dataseto [1..<i] [0] [0]
                      = (Inr (take i roll_arr, take i pitch_arr), s) \<and>
               update_6dof s [dataseto ! 1 ! i, dataseto ! 2 ! i, dataseto ! 3 ! i]
                 [dataseto ! 4 ! i, dataseto ! 5 ! i, dataseto ! 6 ! i]
                 (dataseto ! 0 ! i - dataseto ! 0 ! (i - 1))
                 = (Inr (roll_arr ! i, pitch_arr ! i), s') \<and>
               roll_arr ! i = degrees (x s' ! 0 ! 0) \<and>
               pitch_arr ! i = degrees (x s' ! 2 ! 0))) \<and>
         spline (dataseto ! 0) (zero roll_arr) 1 = Inr roll_f \<and>
         spline (dataseto ! 0) (zero pitch_arr) 1 = Inr pitch_f \<and>
         (\<forall>i. i < length (dataseto ! 0) \<longrightarrow>
            roll_s ! i = roll_f (dataseto ! 0 ! i) \<and>
            pitch_s ! i = pitch_f (dataseto ! 0 ! i))"
    by blast
next
  assume "6 \<le> length datasetT" "length (datasetT ! 0) = 1"
  then show "analyze_dataset_v selfT datasetT = (Inr [0], reset_v selfT)"
    by (simp add: analyze_dataset_v_def)
qed

lemma analyze_dataset_6dof_Inr:
  assumes "7 \<le> length dataset" "4 \<le> length (dataset ! 0)"
    and "fst (for_6dof (reset_6dof self) dataset [1..<length (dataset ! 0)] [0] [0])
           = Inr (roll_arr, pitch_arr)"
    and "spline (dataset ! 0) (zero roll_arr) 1 = Inr roll_f"
    and "spline (dataset ! 0) (zero pitch_arr) 1 = Inr pitch_f"
  shows "fst (analyze_dataset_6dof spline self dataset)
           = Inr (map roll_f (dataset ! 0), map pitch_f (dataset ! 0))"
proof -
  obtain r s' where l: "for_6dof (reset_6dof self) dataset [1..<length (dataset ! 0)] [0] [0]
      = (r, s')"
    by (cases "for_6dof (reset_6dof self) dataset [1..<length (dataset ! 0)] [0] [0]")
  with assms(3) have "r = Inr (roll_arr, pitch_arr)" by simp
  with l assms(1,2,4,5) show ?thesis
    by (simp add: analyze_dataset_6dof_def Let_def smooth_def)
qed

lemma analyze_dataset_v_Inr:
  assumes "6 \<le> length dataset"
    and "fst (for_v (reset_v self) dataset [1..<length (dataset ! 0)] [0]) = Inr speed_arr"
  shows "fst (analyze_dataset_v self dataset) = Inr speed_arr"
  using assms by (simp add: analyze_dataset_v_def Let_def)

text \<open>
  The theorem at the constructed filters: the velocity filter on two samples and on one
  sample, the orientation filter on four samples, with a spline whose value is NaN when
  its samples are (four samples are too few for \<^verbatim>\<open>zero\<close> to find its window).
\<close>

theorem analyze_dataset_lengths_witness:
  "([[0, 1], [0, 0], [0, 0], [0, 0], [0, 0], [0, 1]] :: real list list) ! 0 \<noteq> [] \<and>
   fst (analyze_dataset_v init_v [[0, 1], [0, 0], [0, 0], [0, 0], [0, 0], [0, 1]]) = Inr [0, 101130011 / 102131111] \<and>
   length [0, 101130011 / 102131111 :: real] = length (([[0, 1], [0, 0], [0, 0], [0, 0], [0, 0], [0, 1]] :: real list list) ! 0) \<and>
   (\<exists>s s'. for_v (reset_v init_v) [[0, 1], [0, 0], [0, 0], [0, 0], [0, 0], [0, 1]] [1..<1] [0]
              = (Inr (take 1 [0, 101130011 / 102131111]), s) \<and>
      update_v s [[[0, 1], [0, 0], [0, 0], [0, 0], [0, 0], [0, 1]] ! 1 ! 1, [[0, 1], [0, 0], [0, 0], [0, 0], [0, 0], [0, 1]] ! 2 ! 1, [[0, 1], [0, 0], [0, 0], [0, 0], [0, 0], [0, 1]] ! 3 ! 1] ([[0, 1], [0, 0], [0, 0], [0, 0], [0, 0], [0, 1]] ! 4 ! 1) ([[0, 1], [0, 0], [0, 0], [0, 0], [0, 0], [0, 1]] ! 5 ! 1)
        ([[0, 1], [0, 0], [0, 0], [0, 0], [0, 0], [0, 1]] ! 0 ! 1 - [[0, 1], [0, 0], [0, 0], [0, 0], [0, 0], [0, 1]] ! 0 ! (1 - 1))
        = (Inr ([0, 101130011 / 102131111] ! 1), s')) \<and>
   fst (analyze_dataset_6dof (\<lambda>t a s. Inr (\<lambda>u. case a of Values v \<Rightarrow> Some u | NaNs n \<Rightarrow> None)) init_6dof
       [[0, 1, 2, 3], [0, 0, 0, 0], [0, 0, 0, 0], [0, 0, 0, 0],
        [0, 0, 0, 0], [0, 0, 0, 0], [1, 1, 1, 1]])
     = Inr ([None, None, None, None], [None, None, None, None]) \<and>
   length [None :: real option, None, None, None] = length (([[0, 1, 2, 3], [0, 0, 0, 0], [0, 0, 0, 0], [0, 0, 0, 0],
        [0, 0, 0, 0], [0, 0, 0, 0], [1, 1, 1, 1]] :: real list list) ! 0) \<and>
   (\<exists>s s'. for_6dof (reset_6dof init_6dof)
         [[0, 1, 2, 3], [0, 0, 0, 0], [0, 0, 0, 0], [0, 0, 0, 0],
        [0, 0, 0, 0], [0, 0, 0, 0], [1, 1, 1, 1]] [1..<2] [0] [0]
       = (Inr (take 2 [0, 180000090 / 2001001, 45360225180090 / 503503002001,
           36144228156102030 / 401335868334467], take 2 [0, 0, 0, 0]), s) \<and>
      update_6dof s [0, 0, 0] [0, 0, 1] 1 = (Inr (45360225180090 / 503503002001, 0), s') \<and>
      45360225180090 / 503503002001 = degrees (x s' ! 0 ! 0) \<and>
      0 = degrees (x s' ! 2 ! 0)) \<and>
   6 \<le> length [[0 :: real], [0], [0], [0], [0], [0]] \<and>
   length ([[0 :: real], [0], [0], [0], [0], [0]] ! 0) = 1 \<and>
   analyze_dataset_v init_v [[0], [0], [0], [0], [0], [0]] = (Inr [0], reset_v init_v)"
proof -
  let ?dv = "[[0, 1], [0, 0], [0, 0], [0, 0], [0, 0], [0, 1]] :: real list list"
  let ?do = "[[0, 1, 2, 3], [0, 0, 0, 0], [0, 0, 0, 0], [0, 0, 0, 0],
        [0, 0, 0, 0], [0, 0, 0, 0], [1, 1, 1, 1]] :: real list list"
  let ?spl = "(\<lambda>t a s. Inr (\<lambda>u. case a of Values v \<Rightarrow> Some u | NaNs n \<Rightarrow> None)) :: spline"
  let ?d1 = "[[0], [0], [0], [0], [0], [0]] :: real list list"
  let ?ra = "[0, 180000090 / 2001001, 45360225180090 / 503503002001,
           36144228156102030 / 401335868334467] :: real list"
  note T = analyze_dataset_lengths [where dataset = ?dv and self = init_v
      and speed_arr = "[0, 101130011 / 102131111]" and spline = ?spl and selfo = init_6dof
      and dataseto = ?do and roll_s = "[None, None, None, None]"
      and pitch_s = "[None, None, None, None]" and datasetT = ?d1 and selfT = init_v]
  have nv: "?dv ! 0 \<noteq> []" by simp
  have n2: "length (?dv ! 0) = 2" by simp
  have lv: "[1..<length (?dv ! 0)] = [1..<2]" unfolding n2 ..
  have l6: "6 \<le> length ?dv" by simp
  have av: "fst (analyze_dataset_v init_v ?dv) = Inr [0, 101130011 / 102131111]"
    by (rule analyze_dataset_v_Inr [OF l6 for_v_two_samples [folded lv]])
  note v = T [THEN conjunct1, rule_format, OF nv av]
  have p1: "0 < (1::nat)" "(1::nat) < length (?dv ! 0)" by simp_all
  note v1 = v [THEN conjunct2, THEN conjunct2, rule_format, OF p1]
  have n4: "length (?do ! 0) = 4" by simp
  have lo: "[1..<length (?do ! 0)] = [1..<4]" unfolding n4 ..
  have ao: "fst (analyze_dataset_6dof ?spl init_6dof ?do)
      = Inr ([None, None, None, None], [None, None, None, None])"
  proof -
    have l7: "7 \<le> length ?do" "4 \<le> length (?do ! 0)" by simp_all
    have z: "?spl (?do ! 0) (zero ?ra) 1 = Inr (\<lambda>u. None)"
      "?spl (?do ! 0) (zero [0, 0, 0, 0]) 1 = Inr (\<lambda>u. None)"
      by (simp_all add: zero_cases)
    from analyze_dataset_6dof_Inr [OF l7 for_6dof_four_samples [folded lo] z]
    show ?thesis by simp
  qed
  note o = T [THEN conjunct2, THEN conjunct1, rule_format, OF ao]
  from o obtain roll_arr pitch_arr selfo' where
    loop: "for_6dof (reset_6dof init_6dof) ?do [1..<length (?do ! 0)] [0] [0]
           = (Inr (roll_arr, pitch_arr), selfo')"
    and each: "\<forall>i. 0 < i \<longrightarrow> i < length (?do ! 0) \<longrightarrow>
            (\<exists>s s'. for_6dof (reset_6dof init_6dof) ?do [1..<i] [0] [0]
                      = (Inr (take i roll_arr, take i pitch_arr), s) \<and>
               update_6dof s [?do ! 1 ! i, ?do ! 2 ! i, ?do ! 3 ! i]
                 [?do ! 4 ! i, ?do ! 5 ! i, ?do ! 6 ! i]
                 (?do ! 0 ! i - ?do ! 0 ! (i - 1))
                 = (Inr (roll_arr ! i, pitch_arr ! i), s') \<and>
               roll_arr ! i = degrees (x s' ! 0 ! 0) \<and>
               pitch_arr ! i = degrees (x s' ! 2 ! 0))"
    by blast
  from loop for_6dof_four_samples have ra: "roll_arr = ?ra" "pitch_arr = [0, 0, 0, 0]"
    unfolding lo by simp_all
  have p2: "0 < (2::nat)" "(2::nat) < length (?do ! 0)" by simp_all
  from each [rule_format, OF p2]
  have o2: "\<exists>s s'. for_6dof (reset_6dof init_6dof) ?do [1..<2] [0] [0]
       = (Inr (take 2 ?ra, take 2 [0, 0, 0, 0]), s) \<and>
      update_6dof s [0, 0, 0] [0, 0, 1] 1 = (Inr (45360225180090 / 503503002001, 0), s') \<and>
      45360225180090 / 503503002001 = degrees (x s' ! 0 ! 0) \<and>
      0 = degrees (x s' ! 2 ! 0)"
    unfolding ra by simp
  have t: "6 \<le> length ?d1" "length (?d1 ! 0) = 1" by simp_all
  note t1 = T [THEN conjunct2, THEN conjunct2, rule_format, OF t]
  have l1: "length [0, 101130011 / 102131111 :: real] = length (?dv ! 0)"
    "length [None :: real option, None, None, None] = length (?do ! 0)" by simp_all
  show ?thesis
    by (intro conjI) (rule nv av l1 v1 ao o2 t t1)+
qed

text \<open>
  C8 as stated fails: the velocity filter's \<^verbatim>\<open>analyze_dataset\<close> raises on a dataset whose
  acceleration channel is shorter than its time channel, and the orientation filter's
  raises on a dataset of one sample.
\<close>

theorem analyze_dataset_no_result_counterexample:
  "fst (analyze_dataset_v init_v [[0, 1], [0], [0, 0], [0, 0], [0, 0], [0, 0]])
     = Inl IndexError \<and>
   fst (analyze_dataset_6dof (\<lambda>t a s. Inr (\<lambda>u. Some u)) init_6dof
          [[0], [0], [0], [0], [0], [0], [0]])
     = Inl FitpackError"
  by (simp add: analyze_dataset_v_def analyze_dataset_6dof_def Let_def smooth_def)

section \<open>Batch analysis: the passes after the loop\<close>

text \<open>
  C5, as the code has it. A run of \<^verbatim>\<open>kalman_filter_6dof.analyze_dataset\<close> that returns has
  run the per-sample update over the whole dataset, and each of the two sequences it
  returns is the spline with smoothing factor 1 that was fitted to the loop's sequence after
  \<^verbatim>\<open>zero\<close>, evaluated at the timestamps; on 200 samples or more \<^verbatim>\<open>zero\<close> subtracts the
  mean of the samples at the indices 100 to 199. Whenever the loop gets through the dataset
  the result of the run is that of \<^verbatim>\<open>smooth\<close> after \<^verbatim>\<open>zero\<close>, on the roll sequence and then
  on the pitch sequence, and on four timestamps or more \<^verbatim>\<open>smooth\<close> is the fit and its
  evaluation. \<^verbatim>\<open>kalman_filter_velocity.analyze_dataset\<close> returns the sequence of the
  per-sample updates as it is: it applies neither pass.
\<close>

theorem batch_post_processing:
  "(fst (analyze_dataset_6dof spline self dataset) = Inr (roll_s, pitch_s) \<longrightarrow>
      (\<exists>roll_arr pitch_arr self' roll_f pitch_f.
         for_6dof (reset_6dof self) dataset [1..<length (dataset ! 0)] [0] [0]
           = (Inr (roll_arr, pitch_arr), self') \<and>
         spline (dataset ! 0) (zero roll_arr) 1 = Inr roll_f \<and>
         spline (dataset ! 0) (zero pitch_arr) 1 = Inr pitch_f \<and>
         roll_s = map roll_f (dataset ! 0) \<and> pitch_s = map pitch_f (dataset ! 0) \<and>
         (200 \<le> length (dataset ! 0) \<longrightarrow>
            zero roll_arr
              = Values (map (\<lambda>v. v - (\<Sum>i = 100..<200. roll_arr ! i) / 100) roll_arr) \<and>
            zero pitch_arr
              = Values (map (\<lambda>v. v - (\<Sum>i = 100..<200. pitch_arr ! i) / 100) pitch_arr)))) \<and>
   (7 \<le> length dataseto \<longrightarrow>
      for_6dof (reset_6dof selfo) dataseto [1..<length (dataseto ! 0)] [0] [0]
        = (Inr (roll_o, pitch_o), selfo') \<longrightarrow>
      analyze_dataset_6dof splineo selfo dataseto =
        (case smooth splineo (zero roll_o) (dataseto ! 0) 1 of
           Inl e \<Rightarrow> (Inl e, selfo')
         | Inr roll_so \<Rightarrow>
             (case smooth splineo (zero pitch_o) (dataseto ! 0) 1 of
                Inl e \<Rightarrow> (Inl e, selfo')
              | Inr pitch_so \<Rightarrow> (Inr (roll_so, pitch_so), selfo')))) \<and>
   (4 \<le> length time_arr \<longrightarrow> splinet time_arr series s = Inr smoothed \<longrightarrow>
      smooth splinet series time_arr s = Inr (map smoothed time_arr)) \<and>
   (6 \<le> length datasetv \<longrightarrow>
      analyze_dataset_v selfv datasetv
        = for_v (reset_v selfv) datasetv [1..<length (datasetv ! 0)] [0])"
proof (intro conjI impI)
  assume ok: "fst (analyze_dataset_6dof spline self dataset) = Inr (roll_s, pitch_s)"
  from analyze_dataset_6dof_returns [OF ok] obtain roll_arr pitch_arr self' roll_f pitch_f
    where loop: "for_6dof (reset_6dof self) dataset [1..<length (dataset ! 0)] [0] [0]
             = (Inr (roll_arr, pitch_arr), self')"
      and sp: "spline (dataset ! 0) (zero roll_arr) 1 = Inr roll_f"
        "spline (dataset ! 0) (zero pitch_arr) 1 = Inr pitch_f"
      and res: "roll_s = map roll_f (dataset ! 0)" "pitch_s = map pitch_f (dataset ! 0)"
      and len: "4 \<le> length (dataset ! 0)"
    by blast
  from for_6dof_samples(1,2) [OF loop] len have l: "length roll_arr = length (dataset ! 0)"
    "length pitch_arr = length (dataset ! 0)" by simp_all
  have "200 \<le> length (dataset ! 0) \<longrightarrow>
            zero roll_arr
              = Values (map (\<lambda>v. v - (\<Sum>i = 100..<200. roll_arr ! i) / 100) roll_arr) \<and>
            zero pitch_arr
              = Values (map (\<lambda>v. v - (\<Sum>i = 100..<200. pitch_arr ! i) / 100) pitch_arr)"
    using l by (simp add: zero_full_window)
  with loop sp res
  show "\<exists>roll_arr pitch_arr self' roll_f pitch_f.
         for_6dof (reset_6dof self) dataset [1..<length (dataset ! 0)] [0] [0]
           = (Inr (roll_arr, pitch_arr), self') \<and>
         spline (dataset ! 0) (zero roll_arr) 1 = Inr roll_f \<and>
         spline (dataset ! 0) (zero pitch_arr) 1 = Inr pitch_f \<and>
         roll_s = map roll_f (dataset ! 0) \<and> pitch_s = map pitch_f (dataset ! 0) \<and>
         (200 \<le> length (dataset ! 0) \<longrightarrow>
            zero roll_arr
              = Values (map (\<lambda>v. v - (\<Sum>i = 100..<200. roll_arr ! i) / 100) roll_arr) \<and>
            zero pitch_arr
              = Values (map (\<lambda>v. v - (\<Sum>i = 100..<200. pitch_arr ! i) / 100) pitch_arr))"
    by blast
next
  assume "7 \<le> length dataseto"
    "for_6dof (reset_6dof selfo) dataseto [1..<length (dataseto ! 0)] [0] [0]
        = (Inr (roll_o, pitch_o), selfo')"
  then show "analyze_dataset_6dof splineo selfo dataseto =
        (case smooth splineo (zero roll_o) (dataseto ! 0) 1 of
           Inl e \<Rightarrow> (Inl e, selfo')
         | Inr roll_so \<Rightarrow>
             (case smooth splineo (zero pitch_o) (dataseto ! 0) 1 of
                Inl e \<Rightarrow> (Inl e, selfo')
              | Inr pitch_so \<Rightarrow> (Inr (roll_so, pitch_so), selfo')))"
    by (simp add: analyze_dataset_6dof_def Let_def)
next
  assume "4 \<le> length time_arr" "splinet time_arr series s = Inr smoothed"
  then show "smooth splinet series time_arr s = Inr (map smoothed time_arr)"
    by (simp add: smooth_def)
next
  assume "6 \<le> length datasetv"
  then show "analyze_dataset_v selfv datasetv
        = for_v (reset_v selfv) datasetv [1..<length (datasetv ! 0)] [0]"
    by (simp add: analyze_dataset_v_def Let_def)
qed

text \<open>
  The theorem at the constructed filters, with a spline that is the identity on the time
  and NaN when its samples are: the orientation filter on 200 samples and on four samples
  (too few for \<^verbatim>\<open>zero\<close> to find its window, so that every value is NaN), \<^verbatim>\<open>smooth\<close> on
  four timestamps, and the velocity filter on two samples.
\<close>

theorem batch_post_processing_witness:
  "fst (analyze_dataset_6dof (\<lambda>t a s. Inr (\<lambda>u. case a of Values v \<Rightarrow> Some u | NaNs n \<Rightarrow> None)) init_6dof
       [map real [0..<200], replicate 200 0, replicate 200 0, replicate 200 0,
        replicate 200 0, replicate 200 0, replicate 200 1])
     = Inr (map Some (map real [0..<200]), map Some (map real [0..<200])) \<and>
   200 \<le> length (([map real [0..<200], replicate 200 0, replicate 200 0, replicate 200 0,
        replicate 200 0, replicate 200 0, replicate 200 1] :: real list list) ! 0) \<and>
   (\<exists>roll_arr pitch_arr self'.
      for_6dof (reset_6dof init_6dof)
        [map real [0..<200], replicate 200 0, replicate 200 0, replicate 200 0,
        replicate 200 0, replicate 200 0, replicate 200 1] [1..<200] [0] [0]
        = (Inr (roll_arr, pitch_arr), self') \<and>
      zero roll_arr
        = Values (map (\<lambda>v. v - (\<Sum>i = 100..<200. roll_arr ! i) / 100) roll_arr) \<and>
      zero pitch_arr
        = Values (map (\<lambda>v. v - (\<Sum>i = 100..<200. pitch_arr ! i) / 100) pitch_arr)) \<and>
   7 \<le> length ([[0, 1, 2, 3], [0, 0, 0, 0], [0, 0, 0, 0], [0, 0, 0, 0],
        [0, 0, 0, 0], [0, 0, 0, 0], [1, 1, 1, 1]] :: real list list) \<and>
   fst (for_6dof (reset_6dof init_6dof)
       [[0, 1, 2, 3], [0, 0, 0, 0], [0, 0, 0, 0], [0, 0, 0, 0],
        [0, 0, 0, 0], [0, 0, 0, 0], [1, 1, 1, 1]] [1..<4] [0] [0])
     = Inr ([0, 180000090 / 2001001, 45360225180090 / 503503002001,
           36144228156102030 / 401335868334467], [0, 0, 0, 0]) \<and>
   zero [0, 180000090 / 2001001, 45360225180090 / 503503002001,
           36144228156102030 / 401335868334467] = NaNs 4 \<and>
   fst (analyze_dataset_6dof (\<lambda>t a s. Inr (\<lambda>u. case a of Values v \<Rightarrow> Some u | NaNs n \<Rightarrow> None)) init_6dof
       [[0, 1, 2, 3], [0, 0, 0, 0], [0, 0, 0, 0], [0, 0, 0, 0],
        [0, 0, 0, 0], [0, 0, 0, 0], [1, 1, 1, 1]])
     = Inr ([None, None, None, None], [None, None, None, None]) \<and>
   4 \<le> length [0, 1, 2, 3 :: real] \<and>
   smooth (\<lambda>t a s. Inr (\<lambda>u. Some (2 * u))) (Values [5, 6, 7, 8]) [0, 1, 2, 3] 1
     = Inr [Some 0, Some 2, Some 4, Some 6] \<and>
   6 \<le> length ([[0, 1], [0, 0], [0, 0], [0, 0], [0, 0], [0, 1]] :: real list list) \<and>
   fst (analyze_dataset_v init_v [[0, 1], [0, 0], [0, 0], [0, 0], [0, 0], [0, 1]]) = Inr [0, 101130011 / 102131111]"
proof -
  let ?dl = "[map real [0..<200], replicate 200 0, replicate 200 0, replicate 200 0,
        replicate 200 0, replicate 200 0, replicate 200 1] :: real list list"
  let ?do = "[[0, 1, 2, 3], [0, 0, 0, 0], [0, 0, 0, 0], [0, 0, 0, 0],
        [0, 0, 0, 0], [0, 0, 0, 0], [1, 1, 1, 1]] :: real list list"
  let ?dv = "[[0, 1], [0, 0], [0, 0], [0, 0], [0, 0], [0, 1]] :: real list list"
  let ?spl = "(\<lambda>t a s. Inr (\<lambda>u. case a of Values v \<Rightarrow> Some u | NaNs n \<Rightarrow> None)) :: spline"
  let ?ra = "[0, 180000090 / 2001001, 45360225180090 / 503503002001,
           36144228156102030 / 401335868334467] :: real list"
  note T = batch_post_processing [where spline = ?spl and self = init_6dof and dataset = ?dl
      and dataseto = ?do and selfo = init_6dof and splineo = ?spl and roll_o = ?ra
      and pitch_o = "[0, 0, 0, 0]"
      and selfo' = "snd (for_6dof (reset_6dof init_6dof) ?do [1..<length (?do ! 0)] [0] [0])"
      and time_arr = "[0, 1, 2, 3]" and splinet = "\<lambda>t a s. Inr (\<lambda>u. Some (2 * u))"
      and series = "Values [5, 6, 7, 8]" and s = 1 and smoothed = "\<lambda>u. Some (2 * u)"
      and datasetv = ?dv and selfv = init_v]
  have n200: "length (?dl ! 0) = 200" by simp
  have c1: "200 \<le> length (?dl ! 0)" by simp
  from for_6dof_200_samples obtain ra pa s' where
    loop: "for_6dof (reset_6dof init_6dof) ?dl [1..<200] [0] [0] = (Inr (ra, pa), s')" by blast
  from for_6dof_samples(1,2) [OF loop] have lra: "length ra = 200" "length pa = 200"
    by simp_all
  have l7: "7 \<le> length ?dl" "4 \<le> length (?dl ! 0)" by simp_all
  have floop: "fst (for_6dof (reset_6dof init_6dof) ?dl [1..<length (?dl ! 0)] [0] [0])
      = Inr (ra, pa)" unfolding n200 loop by simp
  have z: "?spl (?dl ! 0) (zero ra) 1 = Inr Some" "?spl (?dl ! 0) (zero pa) 1 = Inr Some"
    using lra by (simp_all add: zero_cases)
  from analyze_dataset_6dof_Inr [OF l7 floop z]
  have a200: "fst (analyze_dataset_6dof ?spl init_6dof ?dl)
      = Inr (map Some (map real [0..<200]), map Some (map real [0..<200]))"
    by (simp only: nth_Cons_0)
  from T [THEN conjunct1, rule_format, OF a200]
  obtain roll_arr pitch_arr self' where
    loop': "for_6dof (reset_6dof init_6dof) ?dl [1..<length (?dl ! 0)] [0] [0]
           = (Inr (roll_arr, pitch_arr), self')"
    and zz: "200 \<le> length (?dl ! 0) \<longrightarrow>
            zero roll_arr
              = Values (map (\<lambda>v. v - (\<Sum>i = 100..<200. roll_arr ! i) / 100) roll_arr) \<and>
            zero pitch_arr
              = Values (map (\<lambda>v. v - (\<Sum>i = 100..<200. pitch_arr ! i) / 100) pitch_arr)"
    by blast
  from loop' zz [rule_format, OF c1]
  have c2: "\<exists>roll_arr pitch_arr self'.
      for_6dof (reset_6dof init_6dof) ?dl [1..<200] [0] [0]
        = (Inr (roll_arr, pitch_arr), self') \<and>
      zero roll_arr
        = Values (map (\<lambda>v. v - (\<Sum>i = 100..<200. roll_arr ! i) / 100) roll_arr) \<and>
      zero pitch_arr
        = Values (map (\<lambda>v. v - (\<Sum>i = 100..<200. pitch_arr ! i) / 100) pitch_arr)"
    unfolding n200 by blast
  have n4: "length (?do ! 0) = 4" by simp
  have c3: "7 \<le> length ?do" by simp
  note c4 = for_6dof_four_samples
  have full: "for_6dof (reset_6dof init_6dof) ?do [1..<length (?do ! 0)] [0] [0]
      = (Inr (?ra, [0, 0, 0, 0]),
         snd (for_6dof (reset_6dof init_6dof) ?do [1..<length (?do ! 0)] [0] [0]))"
    unfolding n4 by (rule prod_eqI) (simp_all only: fst_conv snd_conv c4)
  have c5: "zero ?ra = NaNs 4" by (simp add: zero_cases)
  from T [THEN conjunct2, THEN conjunct1, rule_format, OF c3 full]
  have c6: "fst (analyze_dataset_6dof ?spl init_6dof ?do)
      = Inr ([None, None, None, None], [None, None, None, None])"
    by (simp add: zero_cases smooth_def)
  have c7: "4 \<le> length [0, 1, 2, 3 :: real]" by simp
  from T [THEN conjunct2, THEN conjunct2, THEN conjunct1, rule_format, OF c7 refl]
  have c8: "smooth (\<lambda>t a s. Inr (\<lambda>u. Some (2 * u))) (Values [5, 6, 7, 8]) [0, 1, 2, 3] 1
     = Inr [Some 0, Some 2, Some 4, Some 6]" by simp
  have n2: "length (?dv ! 0) = 2" by simp
  have c9: "6 \<le> length ?dv" by simp
  from T [THEN conjunct2, THEN conjunct2, THEN conjunct2, rule_format, OF c9]
  have c10: "fst (analyze_dataset_v init_v ?dv) = Inr [0, 101130011 / 102131111]"
    unfolding n2 by (simp only: for_v_two_samples)
  show ?thesis
    by (intro conjI) (rule a200 c1 c2 c3 c4 c5 c6 c7 c8 c9 c10)+
qed

text \<open>
  C5 as stated fails for the velocity filter: its \<^verbatim>\<open>analyze_dataset\<close> returns the speed
  sequence of the loop, \<open>[0]\<close> on a dataset of one sample and two speeds on a dataset of
  two samples, whereas the two passes give a NaN for every sample after \<^verbatim>\<open>zero\<close> (the
  window is empty) and no spline on so few points.
\<close>

theorem batch_post_processing_counterexample:
  "fst (analyze_dataset_v init_v [[0], [0], [0], [0], [0], [0]]) = Inr [0] \<and>
   zero [0] = NaNs 1 \<and>
   smooth (\<lambda>t a s. Inr (\<lambda>u. Some u)) (zero [0]) [0] 1 = Inl FitpackError \<and>
   fst (analyze_dataset_v init_v [[0, 1], [0, 0], [0, 0], [0, 0], [0, 0], [0, 1]]) = Inr [0, 101130011 / 102131111] \<and>
   zero [0, 101130011 / 102131111] = NaNs 2"
proof -
  have n2: "length (([[0, 1], [0, 0], [0, 0], [0, 0], [0, 0], [0, 1]] :: real list list) ! 0) = 2" by simp
  have l6: "6 \<le> length ([[0, 1], [0, 0], [0, 0], [0, 0], [0, 0], [0, 1]] :: real list list)" by simp
  have "fst (analyze_dataset_v init_v [[0, 1], [0, 0], [0, 0], [0, 0], [0, 0], [0, 1]]) = Inr [0, 101130011 / 102131111]"
    by (rule analyze_dataset_v_Inr [OF l6]) (simp only: n2 for_v_two_samples)
  then show ?thesis
    by (simp add: analyze_dataset_v_def zero_def np_mean_nan_def smooth_def)
qed

end
